theory Spec2Isabelle
  imports Main "HOL-Library.Sublist"
begin

section \<open>Python values used by \<open>deeppresenter/tools/richfile.py\<close>\<close>

text \<open>
  A Python \<open>str\<close> is a \<open>string\<close>: one \<open>char\<close> per code point, for the code points
  below 256. A \<open>bytes\<close> value is a \<open>string\<close> as well, one \<open>char\<close> per byte. Python
  integers are \<open>int\<close>; lengths and counts are \<open>nat\<close>.

  A raised object is an \<open>exn\<close>: \<open>Exception msg\<close> is an instance of \<open>Exception\<close> (or of
  a subclass of it), \<open>BaseException msg\<close> an instance of \<open>BaseException\<close> that is not an
  \<open>Exception\<close> (\<open>KeyboardInterrupt\<close>, \<open>SystemExit\<close>, \<open>asyncio.CancelledError\<close>); \<open>msg\<close> is
  what \<open>str(e)\<close> gives. The clause \<open>except Exception\<close> catches the first kind only, a
  bare \<open>except:\<close> catches both. A computation that may raise has the type \<open>exn + 'a\<close>:
  \<open>Inl e\<close> is "raised \<open>e\<close>", \<open>Inr v\<close> is "returned \<open>v\<close>". A call that returns nothing
  has the type \<open>exn option\<close>: \<open>Some e\<close> is "raised \<open>e\<close>".
\<close>

type_synonym bytes = string

datatype exn = Exception string | BaseException string

fun str_exn :: "exn \<Rightarrow> string" where
  "str_exn (Exception msg) = msg"
| "str_exn (BaseException msg) = msg"

text \<open>\<open>isinstance(e, Exception)\<close>\<close>

fun is_exception :: "exn \<Rightarrow> bool" where
  "is_exception (Exception msg) = True"
| "is_exception (BaseException msg) = False"

definition bind :: "exn + 'a \<Rightarrow> ('a \<Rightarrow> exn + 'b) \<Rightarrow> exn + 'b" where
  "bind m f = (case m of Inl e \<Rightarrow> Inl e | Inr v \<Rightarrow> f v)"

subsection \<open>\<open>str\<close> methods\<close>

text \<open>\<open>str.isspace\<close> on one code point below 256.\<close>

definition isspace :: "char \<Rightarrow> bool" where
  "isspace c = (c \<in> set [CHR 0x09, CHR 0x0A, CHR 0x0B, CHR 0x0C, CHR 0x0D,
                          CHR 0x1C, CHR 0x1D, CHR 0x1E, CHR 0x1F, CHR 0x20,
                          CHR 0x85, CHR 0xA0])"

text \<open>\<open>s.strip()\<close>: leading and trailing whitespace removed.\<close>

definition strip :: "string \<Rightarrow> string" where
  "strip s = rev (dropWhile isspace (rev (dropWhile isspace s)))"

text \<open>\<open>s.lower()\<close>: \<open>A\<close>..\<open>Z\<close> and the upper-case letters of Latin-1 move up by 32.\<close>

definition lower_char :: "char \<Rightarrow> char" where
  "lower_char c = (let n = of_char c :: nat in
     if (65 \<le> n \<and> n \<le> 90) \<or> (192 \<le> n \<and> n \<le> 222 \<and> n \<noteq> 215)
     then char_of (n + 32) else c)"

definition lower :: "string \<Rightarrow> string" where
  "lower s = map lower_char s"

text \<open>\<open>s.endswith(suf)\<close>, and \<open>s.endswith((a, b, ...))\<close> with a tuple of suffixes.\<close>

definition endswith :: "string \<Rightarrow> string \<Rightarrow> bool" where
  "endswith s suf = suffix suf s"

definition endswith_any :: "string \<Rightarrow> string list \<Rightarrow> bool" where
  "endswith_any s sufs = list_ex (endswith s) sufs"

text \<open>
  \<open>s.split(sep)\<close> for a non-empty \<open>sep\<close>: the pieces between the occurrences of \<open>sep\<close>,
  found from the left and not overlapping. (Python raises \<open>ValueError\<close> on an empty
  separator; the source only splits on a literal, and here an empty \<open>sep\<close> splits
  nothing.)
\<close>

fun split_py :: "string \<Rightarrow> string \<Rightarrow> string list" where
  "split_py sep [] = [[]]"
| "split_py sep (c # cs) =
     (if sep \<noteq> [] \<and> prefix sep (c # cs) then [] # split_py sep (drop (length sep - 1) cs)
      else (case split_py sep cs of [] \<Rightarrow> [[c]] | p # ps \<Rightarrow> (c # p) # ps))"

text \<open>
  \<open>s.count(sub)\<close>: the number of non-overlapping occurrences of \<open>sub\<close> in \<open>s\<close>, found
  from the left; for the empty \<open>sub\<close>, \<open>len(s) + 1\<close>.
\<close>

fun count_from :: "string \<Rightarrow> string \<Rightarrow> nat" where
  "count_from sub [] = 0"
| "count_from sub (c # cs) =
     (if prefix sub (c # cs) then Suc (count_from sub (drop (length sub - 1) cs))
      else count_from sub cs)"

definition count_py :: "string \<Rightarrow> string \<Rightarrow> nat" where
  "count_py s sub = (if sub = [] then length s + 1 else count_from sub s)"

text \<open>Decimal digits of a natural number, \<open>str(n)\<close> and the format \<open>{n:02d}\<close> of an integer.\<close>

fun digits :: "nat \<Rightarrow> string" where
  "digits n = (if n < 10 then [''0123456789'' ! n]
               else digits (n div 10) @ [''0123456789'' ! (n mod 10)])"

declare digits.simps [simp del]

definition str_int :: "int \<Rightarrow> string" where
  "str_int n = (if n < 0 then CHR ''-'' # digits (nat (- n)) else digits (nat n))"

definition fmt_02d :: "int \<Rightarrow> string" where
  "fmt_02d n = (if n < 0 then str_int n
                else replicate (2 - length (digits (nat n))) CHR ''0'' @ digits (nat n))"

subsection \<open>Dictionaries\<close>

text \<open>
  The dictionaries returned by \<open>inspect_manuscript\<close> map a key to a string or to a list
  of strings.
\<close>

datatype pyval = Str string | StrList "string list"

type_synonym pydict = "string \<rightharpoonup> pyval"

subsection \<open>Regular expressions\<close>

text \<open>
  The two patterns of the source are sequences of three kinds of items: a literal
  character, an optional literal character (\<open>s?\<close>, greedy) and a lazy run of any
  characters but the newline (\<open>.*?\<close>, no \<open>DOTALL\<close>). \<open>match_here\<close> is the backtracking
  matcher of \<open>re\<close> at one start position: a lazy run first tries to go on with the rest
  of the pattern and takes one more character only when that fails; an optional
  character is taken first and given back when the rest fails. The result is the text
  of every lazy run, in order, and the input left after the match. In
  \<open>!\[(.*?)\]\((.*?)\)\<close> the lazy runs are the groups 1 and 2.
\<close>

datatype item = Lit char | Opt char | Lazy_dots

fun match_here :: "item list \<Rightarrow> string \<Rightarrow> (string list \<times> string) option" where
  "match_here [] s = Some ([], s)"
| "match_here (Lit c # p) [] = None"
| "match_here (Lit c # p) (x # xs) = (if x = c then match_here p xs else None)"
| "match_here (Opt c # p) [] = match_here p []"
| "match_here (Opt c # p) (x # xs) =
     (if x = c then (case match_here p xs of Some r \<Rightarrow> Some r | None \<Rightarrow> match_here p (x # xs))
      else match_here p (x # xs))"
| "match_here (Lazy_dots # p) [] =
     (case match_here p [] of Some (gs, r) \<Rightarrow> Some ([] # gs, r) | None \<Rightarrow> None)"
| "match_here (Lazy_dots # p) (x # xs) =
     (case match_here p (x # xs) of
        Some (gs, r) \<Rightarrow> Some ([] # gs, r)
      | None \<Rightarrow>
         (if x = CHR ''\<newline>'' then None
          else (case match_here (Lazy_dots # p) xs of
                  Some (g # gs, r) \<Rightarrow> Some ((x # g) # gs, r)
                | _ \<Rightarrow> None)))"

text \<open>\<open>re.search\<close>: the match at the first start position that has one.\<close>

fun re_search :: "item list \<Rightarrow> string \<Rightarrow> (string list \<times> string) option" where
  "re_search p [] = match_here p []"
| "re_search p (x # xs) =
     (case match_here p (x # xs) of Some r \<Rightarrow> Some r | None \<Rightarrow> re_search p xs)"

text \<open>
  \<open>re.finditer\<close>: the matches from the left, each search starting where the match
  before it ended. Both patterns of the source begin with a literal, so a match is
  never empty and the search always continues in a shorter input; the other branch is
  there for totality only.
\<close>

function re_finditer :: "item list \<Rightarrow> string \<Rightarrow> string list list" where
  "re_finditer p s =
     (case re_search p s of
        None \<Rightarrow> []
      | Some (gs, r) \<Rightarrow> if length r < length s then gs # re_finditer p r else [gs])"
  by pat_completeness auto
termination
  by (relation "measure (\<lambda>(p, s). length s)") auto

declare re_finditer.simps [simp del]

text \<open>\<open>match.group(n)\<close> for a numbered group \<open>n \<ge> 1\<close>.\<close>

definition group :: "string list \<Rightarrow> nat \<Rightarrow> exn + string" where
  "group m n = (if 1 \<le> n \<and> n \<le> length m then Inr (m ! (n - 1))
                else Inl (Exception ''no such group''))"

section \<open>The environment of the tools\<close>

text \<open>
  Everything the tools call outside the file is a field of the environment: the
  configuration value \<open>RETRY_TIMES\<close>, the file system (\<open>pathlib\<close>, \<open>open\<close>, \<open>tempfile\<close>),
  the network (\<open>httpx\<close>), \<open>asyncio.sleep\<close>, the image decoder (\<open>PIL\<close>), \<open>mistune\<close>,
  \<open>base64\<close>, and the helpers \<open>get_html_table_image\<close>, \<open>ppt_to_images\<close> and
  \<open>convert_html_to_pptx\<close>, which live outside this file. Each call may raise.

  One download attempt (the body of the \<open>try\<close> after the sleep) ends in one of three
  ways: an exception before the output file is opened, an exception after the file was
  opened and some bytes were written, or the whole body written.
\<close>

datatype attempt =
    Failed_before_open exn
  | Failed_after_open bytes exn
  | Completed bytes

record env =
  RETRY_TIMES :: int
  mkdir_parents :: "string \<Rightarrow> exn option"
  sleep :: "nat \<Rightarrow> exn option"
  http_stream :: "nat \<Rightarrow> string \<Rightarrow> string \<Rightarrow> attempt"
  image_size :: "bytes \<Rightarrow> exn + int \<times> int"
  markdown_to_html :: "string \<Rightarrow> exn + string"
  get_html_table_image :: "string \<Rightarrow> string \<Rightarrow> string \<Rightarrow> exn option"
  path_absolute :: "string \<Rightarrow> exn + string"
  path_suffix :: "string \<Rightarrow> string"
  path_exists :: "string \<Rightarrow> exn + bool"
  read_text :: "string \<Rightarrow> exn + string"
  convert_html_to_pptx :: "string \<Rightarrow> string \<Rightarrow> exn + string"
  temporary_directory :: "exn + string"
  ppt_to_images :: "string \<Rightarrow> string \<Rightarrow> exn + (string \<rightharpoonup> bytes)"
  b64encode :: "bytes \<Rightarrow> string"

section \<open>\<open>inspect_manuscript\<close>\<close>

definition page_delimiter :: string where
  "page_delimiter = ''\<newline>---\<newline>''"

text \<open>\<open>[p for p in markdown.split("\n---\n") if p.strip()]\<close>\<close>

definition pages_of :: "string \<Rightarrow> string list" where
  "pages_of markdown = filter (\<lambda>p. strip p \<noteq> []) (split_py page_delimiter markdown)"

text \<open>The pattern \<open>!\[.*?\]\(https?://.*?\)\<close>.\<close>

definition external_image_pattern :: "item list" where
  "external_image_pattern =
     map Lit ''!['' @ [Lazy_dots] @ map Lit ''](http'' @ [Opt CHR ''s''] @ map Lit ''://''
     @ [Lazy_dots] @ map Lit '')''"

text \<open>The pattern \<open>!\[(.*?)\]\((.*?)\)\<close>.\<close>

definition image_pattern :: "item list" where
  "image_pattern = map Lit ''!['' @ [Lazy_dots] @ map Lit '']('' @ [Lazy_dots] @ map Lit '')''"

definition external_warning :: string where
  "external_warning =
     ''External image links detected, please downloading and replace them with local paths.''"

definition missing_warning :: "string \<Rightarrow> string" where
  "missing_warning local_path =
     ''Image file does not exist: '' @ local_path
     @ '', please check if there is a format error or file missing.''"

definition label_warning :: "string \<Rightarrow> string" where
  "label_warning local_path =
     ''Image file '' @ local_path
     @ '' is missing an alt text label; please add a descriptive label about the image's type, purpose, and content for better accessibility.''"

definition count_warning :: "string \<Rightarrow> string \<Rightarrow> nat \<Rightarrow> string" where
  "count_warning label local_path count =
     ''Image file '' @ label @ '':'' @ local_path @ '' is used '' @ str_int (int count)
     @ '' times in the document, please check if it's an appropriate usage.''"

text \<open>
  \<open>result["warnings"].append(w)\<close> on a \<open>defaultdict(list)\<close>: a missing key is created
  with the empty list on access.
\<close>

definition append_warning :: "pydict \<Rightarrow> string \<Rightarrow> exn + pydict" where
  "append_warning result w =
     (case result ''warnings'' of
        None \<Rightarrow> Inr (result(''warnings'' \<mapsto> StrList [w]))
      | Some (StrList ws) \<Rightarrow> Inr (result(''warnings'' \<mapsto> StrList (ws @ [w])))
      | Some (Str s) \<Rightarrow> Inl (Exception ''str object has no attribute append''))"

text \<open>The body of the loop over the matches of \<open>image_pattern\<close>.\<close>

definition lint_reference :: "env \<Rightarrow> string \<Rightarrow> string list \<Rightarrow> pydict \<Rightarrow> exn + pydict" where
  "lint_reference env markdown m result =
     bind (group m 1) (\<lambda>label.
     bind (group m 2) (\<lambda>local_path.
     bind (path_exists env local_path) (\<lambda>ex.
     bind (if \<not> ex then append_warning result (missing_warning local_path) else Inr result)
       (\<lambda>result1.
     let count = count_py markdown local_path in
     bind (if strip label = [] then append_warning result1 (label_warning local_path)
           else Inr result1)
       (\<lambda>result2.
     if count \<noteq> 1 then append_warning result2 (count_warning label local_path count)
     else Inr result2)))))"

fun lint_loop :: "env \<Rightarrow> string \<Rightarrow> string list list \<Rightarrow> pydict \<Rightarrow> exn + pydict" where
  "lint_loop env markdown [] result = Inr result"
| "lint_loop env markdown (m # ms) result =
     bind (lint_reference env markdown m result) (lint_loop env markdown ms)"

definition missing_file_error :: "string \<Rightarrow> string" where
  "missing_file_error md_file = ''file does not exist: '' @ md_file"

definition not_markdown_error :: "string \<Rightarrow> string" where
  "not_markdown_error md_file = ''file is not a markdown file: '' @ md_file"

definition page_low_error :: string where
  "page_low_error = ''Page ID should be a positive integer starting from 1.''"

definition page_high_error :: string where
  "page_high_error =
     ''Page ID exceeds the number of pages in the document. You could view full content using `read_file` to see if format error happened.''"

definition inspect_manuscript :: "env \<Rightarrow> string \<Rightarrow> int \<Rightarrow> exn + pydict" where
  "inspect_manuscript env md_file page_id =
     bind (path_exists env md_file) (\<lambda>ex.
     if \<not> ex then Inr [''error'' \<mapsto> Str (missing_file_error md_file)]
     else if \<not> endswith (lower md_file) ''.md''
     then Inr [''error'' \<mapsto> Str (not_markdown_error md_file)]
     else if page_id < 1
     then Inr [''error'' \<mapsto> Str page_low_error]
     else
     bind (read_text env md_file) (\<lambda>markdown.
     let pages = pages_of markdown in
     if \<not> int (length pages) \<ge> page_id
     then Inr [''error'' \<mapsto> Str page_high_error]
     else
     let page = pages ! nat (page_id - 1);
         result0 = [''page_id'' \<mapsto> Str (fmt_02d page_id @ ''/'' @ fmt_02d (int (length pages)))];
         result1 = result0(''page_content'' \<mapsto> Str page)
     in
     bind (if re_search external_image_pattern page \<noteq> None
           then append_warning result1 external_warning else Inr result1)
       (\<lambda>result2.
     lint_loop env markdown (re_finditer image_pattern page) result2)))"

section \<open>\<open>download_file\<close>\<close>

text \<open>
  The tool sleeps, talks to the network and writes a file. The state it works on is
  the content of the files it writes and the trace of the calls it makes: a sleep of
  \<open>n\<close> seconds, a GET of a URL, and for \<open>inspect_slide\<close> the conversion of an HTML file
  and the rasterization of a presentation.
\<close>

datatype event =
    Sleep nat
  | Get string
  | Convert string string
  | Rasterize string string

record world =
  files :: "string \<rightharpoonup> bytes"
  trace :: "event list"

text \<open>
  The loop \<open>for retry in range(RETRY_TIMES)\<close> over the attempts still to make. The
  result \<open>True\<close> is the \<open>break\<close>, \<open>False\<close> the end of the range (the \<open>else\<close> of the
  \<open>for\<close>). Whatever an attempt raises, the sleep included and of either kind, is
  swallowed by the bare \<open>except:\<close>.
\<close>

fun attempts :: "env \<Rightarrow> string \<Rightarrow> string \<Rightarrow> nat list \<Rightarrow> world \<Rightarrow> bool \<times> world" where
  "attempts env url output_path [] w = (False, w)"
| "attempts env url output_path (retry # retries) w =
     (let w1 = w\<lparr>trace := trace w @ [Sleep retry]\<rparr> in
      case sleep env retry of
        Some e \<Rightarrow> attempts env url output_path retries w1
      | None \<Rightarrow>
         (let w2 = w1\<lparr>trace := trace w1 @ [Get url]\<rparr> in
          case http_stream env retry url output_path of
            Failed_before_open e \<Rightarrow> attempts env url output_path retries w2
          | Failed_after_open written e \<Rightarrow>
              attempts env url output_path retries
                (w2\<lparr>files := (files w2)(output_path \<mapsto> written)\<rparr>)
          | Completed body \<Rightarrow> (True, w2\<lparr>files := (files w2)(output_path \<mapsto> body)\<rparr>)))"

text \<open>\<open>Image.open(path).size\<close>: the decoder reads the file as it is now.\<close>

definition image_open :: "env \<Rightarrow> world \<Rightarrow> string \<Rightarrow> exn + int \<times> int" where
  "image_open env w path =
     (case files w path of
        None \<Rightarrow> Inl (Exception ''No such file or directory'')
      | Some content \<Rightarrow> image_size env content)"

definition image_extensions :: "string list" where
  "image_extensions = [''.png'', ''.jpg'', ''.jpeg'', ''.gif'', ''.webp'', ''.bmp'']"

definition download_failure :: "string \<Rightarrow> string" where
  "download_failure url = ''Failed to download file from '' @ url"

definition download_success :: "string \<Rightarrow> string" where
  "download_success output_path = ''File downloaded to '' @ output_path"

definition resolution_suffix :: "int \<Rightarrow> int \<Rightarrow> string" where
  "resolution_suffix width height =
     '' (resolution: '' @ str_int width @ ''x'' @ str_int height @ '')''"

definition invalid_image :: "exn \<Rightarrow> string" where
  "invalid_image e = ''The provided URL does not point to a valid image file: '' @ str_exn e"

definition download_file :: "env \<Rightarrow> string \<Rightarrow> string \<Rightarrow> world \<Rightarrow> (exn + string) \<times> world" where
  "download_file env url output_path w =
     (case mkdir_parents env output_path of
        Some e \<Rightarrow> (Inl e, w)
      | None \<Rightarrow>
         (case attempts env url output_path [0..<nat (RETRY_TIMES env)] w of
            (False, w') \<Rightarrow> (Inr (download_failure url), w')
          | (True, w') \<Rightarrow>
             (let result = download_success output_path in
              if endswith_any (lower output_path) image_extensions then
                (case image_open env w' output_path of
                   Inr (width, height) \<Rightarrow> (Inr (result @ resolution_suffix width height), w')
                 | Inl e \<Rightarrow> (if is_exception e then Inr (invalid_image e) else Inl e, w'))
              else (Inr result, w'))))"

section \<open>\<open>markdown_table_to_image\<close>\<close>

definition table_confirmation :: "string \<Rightarrow> string" where
  "table_confirmation path = ''Markdown table converted to image and saved to '' @ path"

definition markdown_table_to_image :: "env \<Rightarrow> string \<Rightarrow> string \<Rightarrow> string \<Rightarrow> exn + string" where
  "markdown_table_to_image env markdown_table path css =
     bind (markdown_to_html env markdown_table) (\<lambda>html.
     case get_html_table_image env html path css of
       Some e \<Rightarrow> Inl e
     | None \<Rightarrow> Inr (table_confirmation path))"

section \<open>\<open>inspect_slide\<close>\<close>

text \<open>
  The tool returns an \<open>ImageContent\<close>, a string, or the exception object it caught.
  \<open>ppt_to_images env pptx_path output_dir\<close> gives the files of the temporary directory as
  the rest of the \<open>with\<close> block finds them, by name; \<open>Inl e\<close> is an exception raised
  anywhere from the rasterization to the end of the block.
\<close>

record image_content =
  content_type :: string
  data :: string
  mimeType :: string

datatype slide_result =
    Message string
  | Image image_content
  | Exception_object exn

definition invalid_html_path :: "string \<Rightarrow> string" where
  "invalid_html_path html_file =
     ''HTML path '' @ html_file @ '' does not exist or is not an HTML file''"

definition invalid_aspect_ratio :: string where
  "invalid_aspect_ratio =
     ''aspect_ratio should be one of 'widescreen', 'normal', 'A1'' @ [CHR 0x27]"

definition no_slide_image :: string where
  "no_slide_image = ''Slide inspection failed: PPTX to image conversion produced no output.''"

text \<open>\<open>except Exception as e: return e\<close>, for an object \<open>e\<close> raised inside the \<open>try\<close>.\<close>

definition handler :: "exn \<Rightarrow> exn + slide_result" where
  "handler e = (if is_exception e then Inr (Exception_object e) else Inl e)"

definition inspect_slide :: "env \<Rightarrow> string \<Rightarrow> string \<Rightarrow> (exn + slide_result) \<times> event list" where
  "inspect_slide env html_file aspect_ratio =
     (case path_absolute env html_file of
        Inl e \<Rightarrow> (Inl e, [])
      | Inr html_path \<Rightarrow>
     (case path_exists env html_path of
        Inl e \<Rightarrow> (Inl e, [])
      | Inr ex \<Rightarrow>
     if \<not> (ex \<and> path_suffix env html_path = ''.html'')
     then (Inr (Message (invalid_html_path html_path)), [])
     else if aspect_ratio \<notin> set [''widescreen'', ''normal'', ''A1'']
     then (Inr (Message invalid_aspect_ratio), [])
     else
     (case convert_html_to_pptx env html_path aspect_ratio of
        Inl e \<Rightarrow> (handler e, [Convert html_path aspect_ratio])
      | Inr pptx_path \<Rightarrow>
     (case temporary_directory env of
        Inl e \<Rightarrow> (handler e, [Convert html_path aspect_ratio])
      | Inr tmp_dir \<Rightarrow>
     (case ppt_to_images env pptx_path tmp_dir of
        Inl e \<Rightarrow>
          (handler e, [Convert html_path aspect_ratio, Rasterize pptx_path tmp_dir])
      | Inr produced \<Rightarrow>
     (case produced ''slide_0001.jpg'' of
        None \<Rightarrow>
          (Inr (Message no_slide_image),
           [Convert html_path aspect_ratio, Rasterize pptx_path tmp_dir])
      | Some image_data \<Rightarrow>
          (Inr (Image \<lparr>content_type = ''image'',
                        data = ''data:image/jpeg;base64,'' @ b64encode env image_data,
                        mimeType = ''image/jpeg''\<rparr>),
           [Convert html_path aspect_ratio, Rasterize pptx_path tmp_dir])))))))"

section \<open>Notions used to state the properties\<close>

subsection \<open>Results of \<open>inspect_manuscript\<close>\<close>

text \<open>
  A result is an error when it has the key \<open>error\<close>. \<open>warnings_of\<close> reads the list under
  the key \<open>warnings\<close> (empty when the key is absent). \<open>wf_result\<close> holds of the
  dictionaries the tool builds: the key \<open>warnings\<close>, when present, holds a non-empty
  list. \<open>add_warnings d ws\<close> is \<open>d\<close> after the warnings \<open>ws\<close> were appended one by one;
  with no warning to append, \<open>d\<close> is untouched.
\<close>

definition is_error :: "pydict \<Rightarrow> bool" where
  "is_error d = (''error'' \<in> dom d)"

definition warnings_of :: "pydict \<Rightarrow> string list" where
  "warnings_of d = (case d ''warnings'' of Some (StrList ws) \<Rightarrow> ws | _ \<Rightarrow> [])"

definition wf_result :: "pydict \<Rightarrow> bool" where
  "wf_result d = (case d ''warnings'' of None \<Rightarrow> True | Some (StrList ws) \<Rightarrow> ws \<noteq> [] | Some (Str s) \<Rightarrow> False)"

definition add_warnings :: "pydict \<Rightarrow> string list \<Rightarrow> pydict" where
  "add_warnings d ws = (if ws = [] then d else d(''warnings'' \<mapsto> StrList (warnings_of d @ ws)))"

text \<open>The result of a valid call before any warning is appended.\<close>

definition page_result :: "int \<Rightarrow> string list \<Rightarrow> pydict" where
  "page_result page_id pages =
     [''page_id'' \<mapsto> Str (fmt_02d page_id @ ''/'' @ fmt_02d (int (length pages))),
      ''page_content'' \<mapsto> Str (pages ! nat (page_id - 1))]"

subsection \<open>The warnings of a page, as the specification words them\<close>

text \<open>
  An image reference is the text \<open>![label](path)\<close>. For one reference the tool flags,
  in this order: the path does not exist on disk; the label is empty or whitespace;
  the path does not occur exactly once in the whole document.
\<close>

definition reference_text :: "string \<Rightarrow> string \<Rightarrow> string" where
  "reference_text label local_path = ''!['' @ label @ '']('' @ local_path @ '')''"

definition reference_flags :: "env \<Rightarrow> string \<Rightarrow> string \<Rightarrow> string \<Rightarrow> string list" where
  "reference_flags env markdown label local_path =
     (if path_exists env local_path = Inr False then [missing_warning local_path] else []) @
     (if list_all isspace label then [label_warning local_path] else []) @
     (if count_py markdown local_path \<noteq> 1
      then [count_warning label local_path (count_py markdown local_path)] else [])"

text \<open>
  The page-level flag for external images comes first, then the flags of the
  references in the order of the matches.
\<close>

definition external_flag :: "string \<Rightarrow> string list" where
  "external_flag page =
     (if re_search external_image_pattern page \<noteq> None then [external_warning] else [])"

definition page_warnings :: "env \<Rightarrow> string \<Rightarrow> string \<Rightarrow> string list" where
  "page_warnings env markdown page =
     (if re_search external_image_pattern page \<noteq> None then [external_warning] else [])
     @ concat (map (\<lambda>m. reference_flags env markdown (m ! 0) (m ! 1))
                   (re_finditer image_pattern page))"

text \<open>
  \<open>spells p gs w\<close>: the text \<open>w\<close> is an instance of the pattern \<open>p\<close> in which the lazy
  runs are the texts \<open>gs\<close>.
\<close>

fun spells :: "item list \<Rightarrow> string list \<Rightarrow> string \<Rightarrow> bool" where
  "spells [] gs w = (gs = [] \<and> w = [])"
| "spells (Lit c # p) gs w = (case w of [] \<Rightarrow> False | x # xs \<Rightarrow> x = c \<and> spells p gs xs)"
| "spells (Opt c # p) gs w =
     (spells p gs w \<or> (case w of [] \<Rightarrow> False | x # xs \<Rightarrow> x = c \<and> spells p gs xs))"
| "spells (Lazy_dots # p) gs w =
     (case gs of [] \<Rightarrow> False
      | g # gs' \<Rightarrow> prefix g w \<and> CHR ''\<newline>'' \<notin> set g \<and> spells p gs' (drop (length g) w))"

subsection \<open>The attempts of \<open>download_file\<close>\<close>

text \<open>
  Attempt \<open>i\<close> completes when its sleep returns and the whole body is written. Its
  events are the sleep of \<open>i\<close> seconds and, when the sleep returns, the GET. Of the
  attempts of a list, the loop makes those up to the first that completes.
\<close>

definition attempt_completes :: "env \<Rightarrow> string \<Rightarrow> string \<Rightarrow> nat \<Rightarrow> bool" where
  "attempt_completes env url output_path i =
     (sleep env i = None \<and>
      (case http_stream env i url output_path of Completed body \<Rightarrow> True | _ \<Rightarrow> False))"

definition attempt_events :: "env \<Rightarrow> string \<Rightarrow> nat \<Rightarrow> event list" where
  "attempt_events env url i = (if sleep env i = None then [Sleep i, Get url] else [Sleep i])"

fun attempts_made :: "(nat \<Rightarrow> bool) \<Rightarrow> nat list \<Rightarrow> nat list" where
  "attempts_made ok [] = []"
| "attempts_made ok (i # rest) = (if ok i then [i] else i # attempts_made ok rest)"


subsection \<open>The exception of the loop over the references\<close>

text \<open>
  The loop calls \<open>Path(local_path).exists()\<close> for the matches in order; the first call
  that raises ends the loop.
\<close>

fun first_raise :: "env \<Rightarrow> string list list \<Rightarrow> exn option" where
  "first_raise env [] = None"
| "first_raise env (m # ms) =
     (case path_exists env (m ! 1) of Inl e \<Rightarrow> Some e | Inr found \<Rightarrow> first_raise env ms)"

subsection \<open>Reading the formatted numbers and joining the pieces of a split\<close>

text \<open>
  \<open>decimal_value\<close> reads a string of decimal digits; \<open>join_py sep ps\<close> is
  \<open>sep.join(ps)\<close>.
\<close>

definition decimal_value :: "string \<Rightarrow> nat" where
  "decimal_value s = foldl (\<lambda>a c. 10 * a + (of_char c - 48)) 0 s"

fun join_py :: "string \<Rightarrow> string list \<Rightarrow> string" where
  "join_py sep [] = []"
| "join_py sep [p] = p"
| "join_py sep (p # q # ps) = p @ sep @ join_py sep (q # ps)"

section \<open>An example environment\<close>

text \<open>
  A concrete environment on which the statements below are instantiated: some
  manuscripts, two images on disk, a download that completes at the third attempt, and
  a slide that is rendered.
\<close>

definition deck_md :: string where
  "deck_md = ''# One ![chart](a.png)\<newline>---\<newline># Two ![](http://e.com/b.png) ![chart](a.png)''"

definition notes_md :: string where
  "notes_md = ''![x](a.png) ![x](a.png)''"

definition clean_md :: string where
  "clean_md = ''# Title\<newline>![logo](a.png)''"

definition spaced_md :: string where
  "spaced_md = ''# A\<newline>---\<newline> \<newline>---\<newline># B''"

definition broken_md :: string where
  "broken_md = ''![a\<newline>b](http://e.com/x.png)''"

definition nested_md :: string where
  "nested_md = ''![a] ![ ](c.png)''"

definition long_md :: string where
  "long_md = ''# One\<newline>---\<newline># Two ![x]('' @ replicate 300 CHR ''n'' @ '')''"

definition env_ok :: env where
  "env_ok = \<lparr>
     RETRY_TIMES = 3,
     mkdir_parents = (\<lambda>output_path. None),
     sleep = (\<lambda>seconds. None),
     http_stream = (\<lambda>i url output_path.
        if i = 0 then Failed_before_open (Exception ''timed out'')
        else if i = 1 then Failed_after_open ''GIF8'' (Exception ''connection reset'')
        else if url = ''http://e.com/pic.gif'' then Completed ''GIF89a''
        else Completed ''<html>''),
     image_size = (\<lambda>content.
        if content = ''GIF89a'' then Inr (640, 480) else Inl (Exception ''cannot identify image file'')),
     markdown_to_html = (\<lambda>text. Inr (''<table>'' @ text @ ''</table>'')),
     get_html_table_image = (\<lambda>html path css. None),
     path_absolute = (\<lambda>path. Inr (''/work/'' @ path)),
     path_suffix = (\<lambda>path. if endswith path ''.html'' then ''.html'' else []),
     path_exists = (\<lambda>path. Inr (path \<in> set [''deck.md'', ''notes.md'', ''clean.md'',
        ''spaced.md'', ''broken.md'', ''nested.md'', ''long.md'', ''deck.txt'', ''a.png'', ''c.png'',
        ''/work/slide.html''])),
     read_text = (\<lambda>path. if path = ''deck.md'' then Inr deck_md
                         else if path = ''notes.md'' then Inr notes_md
                         else if path = ''clean.md'' then Inr clean_md
                         else if path = ''spaced.md'' then Inr spaced_md
                         else if path = ''broken.md'' then Inr broken_md
                         else if path = ''nested.md'' then Inr nested_md
                         else if path = ''long.md'' then Inr long_md
                         else Inl (Exception ''No such file or directory'')),
     convert_html_to_pptx = (\<lambda>html_file aspect_ratio. Inr ''/tmp/slide.pptx''),
     temporary_directory = Inr ''/tmp/dir'',
     ppt_to_images = (\<lambda>pptx_path output_dir. Inr [''slide_0001.jpg'' \<mapsto> ''JPEG'']),
     b64encode = (\<lambda>content. if content = ''JPEG'' then ''SlBFRw=='' else [])
   \<rparr>"

text \<open>
  Variations: a network on which every attempt fails; an environment whose unguarded
  calls raise; a conversion that is cancelled; a file system that denies the existence
  test; and one that refuses names of more than 255 characters, as \<open>Path.exists\<close> does
  with \<open>OSError\<close> (file name too long).
\<close>

definition env_down :: env where
  "env_down = env_ok\<lparr>http_stream := (\<lambda>i url output_path. Failed_before_open (Exception ''timed out''))\<rparr>"

definition env_raise :: env where
  "env_raise = env_ok\<lparr>
     mkdir_parents := (\<lambda>output_path. Some (Exception ''Permission denied'')),
     get_html_table_image := (\<lambda>html path css. Some (Exception ''browser closed'')),
     read_text := (\<lambda>path. Inl (Exception ''Is a directory''))\<rparr>"

definition env_cancel :: env where
  "env_cancel = env_ok\<lparr>
     convert_html_to_pptx := (\<lambda>html_file aspect_ratio. Inl (BaseException ''CancelledError''))\<rparr>"

definition env_denied :: env where
  "env_denied = env_ok\<lparr>path_exists := (\<lambda>path. Inl (Exception ''Permission denied''))\<rparr>"

definition env_long :: env where
  "env_long = env_ok\<lparr>
     path_exists := (\<lambda>path. if 255 < length path then Inl (Exception ''File name too long'')
                            else path_exists env_ok path)\<rparr>"

definition start :: world where
  "start = \<lparr>files = Map.empty, trace = []\<rparr>"

section \<open>Auxiliary facts\<close>

subsection \<open>Exceptions and strings\<close>

lemma bind_Inl [simp]: "bind (Inl e) f = Inl e"
  by (simp add: bind_def)

lemma bind_Inr [simp]: "bind (Inr v) f = f v"
  by (simp add: bind_def)

lemma bind_eq_Inr: "bind m f = Inr r \<longleftrightarrow> (\<exists>v. m = Inr v \<and> f v = Inr r)"
  by (cases m) auto

lemma strip_empty_iff: "strip s = [] \<longleftrightarrow> list_all isspace s"
proof -
  have "strip s = [] \<longleftrightarrow> (\<forall>x \<in> set (dropWhile isspace s). isspace x)"
    by (simp add: strip_def dropWhile_eq_Nil_conv)
  also have "\<dots> \<longleftrightarrow> dropWhile isspace s = []"
  proof
    assume a: "\<forall>x \<in> set (dropWhile isspace s). isspace x"
    show "dropWhile isspace s = []"
    proof (rule ccontr)
      assume "dropWhile isspace s \<noteq> []"
      then have "\<not> isspace (hd (dropWhile isspace s))" "hd (dropWhile isspace s) \<in> set (dropWhile isspace s)"
        by (simp_all add: hd_dropWhile)
      with a show False by blast
    qed
  qed (auto dest: set_dropWhileD)
  also have "\<dots> \<longleftrightarrow> list_all isspace s"
    by (simp add: dropWhile_eq_Nil_conv list_all_iff)
  finally show ?thesis .
qed

subsection \<open>Appending warnings to a result\<close>

lemma add_warnings_Nil [simp]: "add_warnings d [] = d"
  by (simp add: add_warnings_def)

lemma append_warning_wf: "wf_result d \<Longrightarrow> append_warning d w = Inr (add_warnings d [w])"
  by (auto simp: wf_result_def append_warning_def add_warnings_def warnings_of_def
           split: option.splits pyval.splits)

lemma wf_add_warnings: "wf_result d \<Longrightarrow> wf_result (add_warnings d ws)"
  by (simp add: wf_result_def add_warnings_def)

lemma add_warnings_append:
  "wf_result d \<Longrightarrow> add_warnings (add_warnings d ws) vs = add_warnings d (ws @ vs)"
  by (auto simp: add_warnings_def warnings_of_def wf_result_def split: option.splits pyval.splits)


lemma add_warnings_other: "k \<noteq> ''warnings'' \<Longrightarrow> add_warnings d ws k = d k"
  by (simp add: add_warnings_def)

lemma lint_reference_eq:
  assumes "wf_result d" and "m = [label, local_path]"
  shows "lint_reference env markdown m d =
           (case path_exists env local_path of
              Inl e \<Rightarrow> Inl e
            | Inr b \<Rightarrow> Inr (add_warnings d (reference_flags env markdown label local_path)))"
proof (cases "path_exists env local_path")
  case (Inl e)
  then show ?thesis using assms by (simp add: lint_reference_def group_def)
next
  case (Inr b)
  let ?d1 = "add_warnings d (if \<not> b then [missing_warning local_path] else [])"
  let ?d2 = "add_warnings ?d1 (if strip label = [] then [label_warning local_path] else [])"
  have w1: "wf_result ?d1" using assms(1) by (rule wf_add_warnings)
  have w2: "wf_result ?d2" using w1 by (rule wf_add_warnings)
  have s1: "(if \<not> b then append_warning d (missing_warning local_path) else Inr d) = Inr ?d1"
    using assms(1) by (simp add: append_warning_wf)
  have s2: "(if strip label = [] then append_warning ?d1 (label_warning local_path) else Inr ?d1) = Inr ?d2"
    using w1 by (simp add: append_warning_wf)
  have s3: "(if count_py markdown local_path \<noteq> 1
             then append_warning ?d2 (count_warning label local_path (count_py markdown local_path))
             else Inr ?d2)
            = Inr (add_warnings ?d2 (if count_py markdown local_path \<noteq> 1
                 then [count_warning label local_path (count_py markdown local_path)] else []))"
    using w2 by (simp add: append_warning_wf)
  have "lint_reference env markdown m d
        = Inr (add_warnings ?d2 (if count_py markdown local_path \<noteq> 1
                 then [count_warning label local_path (count_py markdown local_path)] else []))"
    unfolding lint_reference_def using assms(2) Inr s1 s2 s3 by (simp add: group_def Let_def)
  also have "\<dots> = Inr (add_warnings d (reference_flags env markdown label local_path))"
    using assms(1) w1 Inr
    by (simp only: add_warnings_append reference_flags_def strip_empty_iff) simp
  finally show ?thesis using Inr by simp
qed

subsection \<open>Every match is an instance of the pattern\<close>

lemma match_here_sound:
  "match_here p s = Some (gs, r) \<Longrightarrow> \<exists>w. s = w @ r \<and> spells p gs w"
proof (induction p s arbitrary: gs r rule: match_here.induct)
  case (1 s)
  then show ?case by simp
next
  case (2 c p)
  then show ?case by simp
next
  case (3 c p x xs)
  then have "x = c" and m: "match_here p xs = Some (gs, r)"
    by (simp_all split: if_splits)
  from "3.IH"[OF \<open>x = c\<close> m] obtain w where "xs = w @ r" "spells p gs w" by blast
  then have "x # xs = (x # w) @ r \<and> spells (Lit c # p) gs (x # w)"
    using \<open>x = c\<close> by simp
  then show ?case by blast
next
  case (4 c p)
  then have "match_here p [] = Some (gs, r)" by simp
  from "4.IH"[OF this] obtain w where "[] = w @ r" "spells p gs w" by blast
  then have "[] = w @ r \<and> spells (Opt c # p) gs w" by simp
  then show ?case by blast
next
  case (5 c p x xs)
  show ?case
  proof (cases "x = c \<and> match_here p xs \<noteq> None")
    case True
    then have "x = c" and m: "match_here p xs = Some (gs, r)"
      using "5.prems" by (auto split: option.splits)
    from "5.IH"(1)[OF \<open>x = c\<close> m] obtain w where "xs = w @ r" "spells p gs w" by blast
    then have "x # xs = (x # w) @ r \<and> spells (Opt c # p) gs (x # w)"
      using \<open>x = c\<close> by simp
    then show ?thesis by blast
  next
    case False
    then have m: "match_here p (x # xs) = Some (gs, r)"
      using "5.prems" by (auto split: option.splits if_splits)
    have "\<exists>w. x # xs = w @ r \<and> spells p gs w"
    proof (cases "x = c")
      case True
      with False have "match_here p xs = None" by (cases "match_here p xs") auto
      from "5.IH"(2)[OF True this m] show ?thesis .
    next
      case F: False
      from "5.IH"(3)[OF F m] show ?thesis .
    qed
    then obtain w where "x # xs = w @ r" "spells p gs w" by blast
    then have "x # xs = w @ r \<and> spells (Opt c # p) gs w" by simp
    then show ?thesis by blast
  qed
next
  case (6 p)
  then obtain gs' where m: "match_here p [] = Some (gs', r)" and gs: "gs = [] # gs'"
    by (auto split: option.splits)
  from "6.IH"[OF m] obtain w where "[] = w @ r" "spells p gs' w" by blast
  then have "[] = w @ r \<and> spells (Lazy_dots # p) gs w" using gs by simp
  then show ?case by blast
next
  case (7 p x xs)
  show ?case
  proof (cases "match_here p (x # xs)")
    case (Some a)
    then obtain gs' where m: "match_here p (x # xs) = Some (gs', r)" and gs: "gs = [] # gs'"
      using "7.prems" by (cases a) auto
    from "7.IH"(1)[OF m] obtain w where "x # xs = w @ r" "spells p gs' w" by blast
    then have "x # xs = w @ r \<and> spells (Lazy_dots # p) gs w" using gs by simp
    then show ?thesis by blast
  next
    case None
    then have nl: "x \<noteq> CHR ''\<newline>''" using "7.prems" by (auto split: if_splits)
    from None nl "7.prems" obtain g gs' where
      m: "match_here (Lazy_dots # p) xs = Some (g # gs', r)" and gs: "gs = (x # g) # gs'"
      by (auto split: option.splits list.splits)
    from "7.IH"(2)[OF None nl m] obtain w where w: "xs = w @ r" "spells (Lazy_dots # p) (g # gs') w"
      by blast
    then have "x # xs = (x # w) @ r \<and> spells (Lazy_dots # p) gs (x # w)"
      using gs nl by simp
    then show ?thesis by blast
  qed
qed

lemma re_search_sound:
  "re_search p s = Some (gs, r) \<Longrightarrow> \<exists>pre w. s = pre @ w @ r \<and> spells p gs w"
proof (induction s)
  case Nil
  then have "match_here p [] = Some (gs, r)" by simp
  from match_here_sound[OF this] obtain w where "[] = w @ r" "spells p gs w" by blast
  then have "[] = [] @ w @ r \<and> spells p gs w" by simp
  then show ?case by blast
next
  case (Cons x xs)
  show ?case
  proof (cases "match_here p (x # xs)")
    case None
    with Cons.prems have "re_search p xs = Some (gs, r)" by simp
    from Cons.IH[OF this] obtain pre w where "xs = pre @ w @ r" "spells p gs w" by blast
    then have "x # xs = (x # pre) @ w @ r \<and> spells p gs w" by simp
    then show ?thesis by blast
  next
    case (Some a)
    with Cons.prems have "match_here p (x # xs) = Some (gs, r)" by simp
    from match_here_sound[OF this] obtain w where "x # xs = w @ r" "spells p gs w" by blast
    then have "x # xs = [] @ w @ r \<and> spells p gs w" by simp
    then show ?thesis by blast
  qed
qed

lemma re_finditer_sound:
  "m \<in> set (re_finditer p s) \<Longrightarrow> \<exists>pre w post. s = pre @ w @ post \<and> spells p m w"
proof (induction p s rule: re_finditer.induct)
  case (1 p s)
  show ?case
  proof (cases "re_search p s")
    case None
    with "1.prems" show ?thesis by (simp add: re_finditer.simps)
  next
    case (Some a)
    obtain gs r where a: "a = (gs, r)" by (cases a)
    from re_search_sound[OF Some[unfolded a]] obtain pre w where
      s: "s = pre @ w @ r" and sp: "spells p gs w" by blast
    show ?thesis
    proof (cases "m = gs")
      case True
      with s sp show ?thesis by blast
    next
      case False
      with "1.prems" Some a have lt: "length r < length s" and m: "m \<in> set (re_finditer p r)"
        by (auto simp: re_finditer.simps[of p s] split: if_splits)
      from "1.IH"[OF Some[unfolded a] refl lt m] obtain pre' w' post where
        "r = pre' @ w' @ post" "spells p m w'" by blast
      with s have "s = (pre @ w @ pre') @ w' @ post \<and> spells p m w'" by simp
      then show ?thesis by blast
    qed
  qed
qed

lemma spells_image_pattern:
  "spells image_pattern gs w \<longleftrightarrow>
     (\<exists>label local_path. gs = [label, local_path] \<and> w = reference_text label local_path
        \<and> CHR ''\<newline>'' \<notin> set label \<and> CHR ''\<newline>'' \<notin> set local_path)"
  by (auto simp: image_pattern_def reference_text_def prefix_def split: list.splits)

subsection \<open>An external image reference is always found\<close>








subsection \<open>The loop over the references and the tool around it\<close>

lemma length_two: "length m = 2 \<Longrightarrow> m = [m ! 0, m ! 1]"
  by (cases m; cases "tl m") auto

lemma lint_loop_returns:
  assumes "wf_result d" and "\<forall>m\<in>set ms. length m = 2"
    and "\<forall>m\<in>set ms. \<exists>b. path_exists env (m ! 1) = Inr b"
  shows "lint_loop env markdown ms d =
           Inr (add_warnings d (concat (map (\<lambda>m. reference_flags env markdown (m ! 0) (m ! 1)) ms)))"
  using assms
proof (induction ms arbitrary: d)
  case Nil
  then show ?case by simp
next
  case (Cons m ms)
  from Cons.prems obtain b where b: "path_exists env (m ! 1) = Inr b" by auto
  from Cons.prems have "length m = 2" by simp
  then have m: "m = [m ! 0, m ! 1]" by (rule length_two)
  have step: "lint_reference env markdown m d
                = Inr (add_warnings d (reference_flags env markdown (m ! 0) (m ! 1)))"
    using lint_reference_eq[OF Cons.prems(1) m, of env markdown] b by simp
  have wf: "wf_result (add_warnings d (reference_flags env markdown (m ! 0) (m ! 1)))"
    using Cons.prems(1) by (rule wf_add_warnings)
  have "lint_loop env markdown ms (add_warnings d (reference_flags env markdown (m ! 0) (m ! 1)))
          = Inr (add_warnings (add_warnings d (reference_flags env markdown (m ! 0) (m ! 1)))
                   (concat (map (\<lambda>m. reference_flags env markdown (m ! 0) (m ! 1)) ms)))"
    using Cons.prems by (intro Cons.IH[OF wf]) auto
  then show ?case
    using step Cons.prems(1) by (simp add: add_warnings_append)
qed

lemma lint_loop_Inr_exists:
  assumes "wf_result d" and "\<forall>m\<in>set ms. length m = 2"
    and "lint_loop env markdown ms d = Inr d'"
  shows "\<forall>m\<in>set ms. \<exists>b. path_exists env (m ! 1) = Inr b"
  using assms
proof (induction ms arbitrary: d)
  case Nil
  then show ?case by simp
next
  case (Cons m ms)
  from Cons.prems have "length m = 2" by simp
  then have m: "m = [m ! 0, m ! 1]" by (rule length_two)
  from Cons.prems(3) obtain d1 where
    d1: "lint_reference env markdown m d = Inr d1" and rest: "lint_loop env markdown ms d1 = Inr d'"
    by (auto simp: bind_eq_Inr)
  from d1 lint_reference_eq[OF Cons.prems(1) m, of env markdown]
  obtain b where b: "path_exists env (m ! 1) = Inr b"
    and "d1 = add_warnings d (reference_flags env markdown (m ! 0) (m ! 1))"
    by (cases "path_exists env (m ! 1)") auto
  then have "wf_result d1" using Cons.prems(1) by (simp add: wf_add_warnings)
  from Cons.IH[OF this _ rest] Cons.prems(2) have "\<forall>m\<in>set ms. \<exists>b. path_exists env (m ! 1) = Inr b"
    by simp
  with b show ?case by simp
qed

lemma image_match_consumes:
  assumes "re_search image_pattern s = Some (gs, r)"
  shows "length r < length s"
proof -
  from re_search_sound[OF assms] obtain pre w where "s = pre @ w @ r" "spells image_pattern gs w"
    by blast
  then show ?thesis by (auto simp: spells_image_pattern reference_text_def)
qed

lemma image_matches_length:
  "m \<in> set (re_finditer image_pattern page) \<Longrightarrow> length m = 2"
  using re_finditer_sound[of m image_pattern page] by (auto simp: spells_image_pattern)

lemma wf_page_result: "wf_result (page_result page_id pages)"
  by (simp add: wf_result_def page_result_def)

lemma inspect_manuscript_page:
  assumes "path_exists env md_file = Inr True" and "endswith (lower md_file) ''.md''"
    and "1 \<le> page_id" and "read_text env md_file = Inr markdown"
    and "page_id \<le> int (length (pages_of markdown))"
  shows "inspect_manuscript env md_file page_id =
           lint_loop env markdown
             (re_finditer image_pattern (pages_of markdown ! nat (page_id - 1)))
             (add_warnings (page_result page_id (pages_of markdown))
                (external_flag (pages_of markdown ! nat (page_id - 1))))"
proof -
  have "append_warning (page_result page_id (pages_of markdown)) external_warning
          = Inr (add_warnings (page_result page_id (pages_of markdown)) [external_warning])"
    by (rule append_warning_wf[OF wf_page_result])
  then show ?thesis
    using assms by (simp add: inspect_manuscript_def Let_def page_result_def external_flag_def)
qed

lemma inspect_manuscript_success:
  assumes "inspect_manuscript env md_file page_id = Inr result" and "\<not> is_error result"
  shows "path_exists env md_file = Inr True \<and> endswith (lower md_file) ''.md'' \<and> 1 \<le> page_id
         \<and> (\<exists>markdown. read_text env md_file = Inr markdown
               \<and> page_id \<le> int (length (pages_of markdown)))"
  using assms
  by (auto simp: inspect_manuscript_def bind_eq_Inr is_error_def Let_def split: if_splits)

lemma inspect_manuscript_result:
  assumes "inspect_manuscript env md_file page_id = Inr result" and "\<not> is_error result"
    and "read_text env md_file = Inr markdown"
  shows "result = add_warnings (page_result page_id (pages_of markdown))
                    (page_warnings env markdown (pages_of markdown ! nat (page_id - 1)))
         \<and> (\<forall>m\<in>set (re_finditer image_pattern (pages_of markdown ! nat (page_id - 1))).
               \<exists>b. path_exists env (m ! 1) = Inr b)"
proof -
  let ?page = "pages_of markdown ! nat (page_id - 1)"
  let ?ms = "re_finditer image_pattern ?page"
  let ?d = "add_warnings (page_result page_id (pages_of markdown)) (external_flag ?page)"
  from inspect_manuscript_success[OF assms(1,2)] assms(3)
  have v: "path_exists env md_file = Inr True" "endswith (lower md_file) ''.md''" "1 \<le> page_id"
    "page_id \<le> int (length (pages_of markdown))"
    by auto
  have loop: "lint_loop env markdown ?ms ?d = Inr result"
    using inspect_manuscript_page[OF v(1,2,3) assms(3) v(4)] assms(1) by simp
  have wf: "wf_result ?d" by (intro wf_add_warnings wf_page_result)
  have len: "\<forall>m\<in>set ?ms. length m = 2" by (simp add: image_matches_length)
  have ex: "\<forall>m\<in>set ?ms. \<exists>b. path_exists env (m ! 1) = Inr b"
    using lint_loop_Inr_exists[OF wf len loop] .
  have "result = add_warnings ?d (concat (map (\<lambda>m. reference_flags env markdown (m ! 0) (m ! 1)) ?ms))"
    using lint_loop_returns[OF wf len ex, of markdown] loop by simp
  then have "result = add_warnings (page_result page_id (pages_of markdown))
                    (page_warnings env markdown ?page)"
    by (simp add: add_warnings_append[OF wf_page_result] page_warnings_def external_flag_def)
  with ex show ?thesis by simp
qed

lemma inspect_manuscript_returns:
  assumes "path_exists env md_file = Inr True" and "endswith (lower md_file) ''.md''"
    and "1 \<le> page_id" and "read_text env md_file = Inr markdown"
    and "page_id \<le> int (length (pages_of markdown))"
    and "\<forall>m\<in>set (re_finditer image_pattern (pages_of markdown ! nat (page_id - 1))).
               \<exists>b. path_exists env (m ! 1) = Inr b"
  shows "inspect_manuscript env md_file page_id =
           Inr (add_warnings (page_result page_id (pages_of markdown))
                  (page_warnings env markdown (pages_of markdown ! nat (page_id - 1))))"
proof -
  let ?page = "pages_of markdown ! nat (page_id - 1)"
  let ?ms = "re_finditer image_pattern ?page"
  let ?d = "add_warnings (page_result page_id (pages_of markdown)) (external_flag ?page)"
  have wf: "wf_result ?d" by (intro wf_add_warnings wf_page_result)
  have len: "\<forall>m\<in>set ?ms. length m = 2" by (simp add: image_matches_length)
  have "inspect_manuscript env md_file page_id
          = Inr (add_warnings ?d (concat (map (\<lambda>m. reference_flags env markdown (m ! 0) (m ! 1)) ?ms)))"
    using inspect_manuscript_page[OF assms(1-5)] lint_loop_returns[OF wf len assms(6), of markdown]
    by simp
  then show ?thesis
    by (simp add: add_warnings_append[OF wf_page_result] page_warnings_def external_flag_def)
qed

subsection \<open>The kinds of warnings have different endings\<close>

lemma kind_missing: "last (butlast (missing_warning p)) = CHR ''g''"
  by (simp add: missing_warning_def butlast_append)
lemma kind_label: "last (butlast (label_warning p)) = CHR ''y''"
  by (simp add: label_warning_def butlast_append)
lemma kind_count: "last (butlast (count_warning l p n)) = CHR ''e''"
  by (simp add: count_warning_def butlast_append)

lemma missing_not_label: "missing_warning p \<noteq> label_warning p'"
proof
  assume "missing_warning p = label_warning p'"
  then have "last (butlast (missing_warning p)) = last (butlast (label_warning p'))" by simp
  then show False by (simp add: kind_missing kind_label)
qed

lemma missing_not_count: "missing_warning p \<noteq> count_warning l p' n"
proof
  assume "missing_warning p = count_warning l p' n"
  then have "last (butlast (missing_warning p)) = last (butlast (count_warning l p' n))" by simp
  then show False by (simp add: kind_missing kind_count)
qed

lemma label_not_count: "label_warning p \<noteq> count_warning l p' n"
proof
  assume "label_warning p = count_warning l p' n"
  then have "last (butlast (label_warning p)) = last (butlast (count_warning l p' n))" by simp
  then show False by (simp add: kind_label kind_count)
qed

lemma reference_flags_iff:
  assumes "path_exists env local_path = Inr b"
  shows "(missing_warning local_path \<in> set (reference_flags env markdown label local_path) \<longleftrightarrow> \<not> b)
    \<and> (label_warning local_path \<in> set (reference_flags env markdown label local_path) \<longleftrightarrow> list_all isspace label)
    \<and> (count_warning label local_path (count_py markdown local_path)
            \<in> set (reference_flags env markdown label local_path) \<longleftrightarrow> count_py markdown local_path \<noteq> 1)"
  using assms missing_not_label[of local_path local_path]
    missing_not_count[of local_path label local_path "count_py markdown local_path"]
    label_not_count[of local_path label local_path "count_py markdown local_path"]
  by (auto simp: reference_flags_def)

subsection \<open>The retry loop\<close>

lemma attempts_trace:
  "attempts env url output_path retries w = (b, w') \<Longrightarrow>
     trace w' = trace w @ concat (map (attempt_events env url)
                   (attempts_made (attempt_completes env url output_path) retries))
     \<and> b = list_ex (attempt_completes env url output_path) retries"
proof (induction retries arbitrary: w)
  case Nil
  then show ?case by simp
next
  case (Cons i retries)
  show ?case
  proof (cases "sleep env i")
    case (Some e)
    with Cons.prems have "attempts env url output_path retries (w\<lparr>trace := trace w @ [Sleep i]\<rparr>) = (b, w')"
      by simp
    from Cons.IH[OF this] Some show ?thesis
      by (simp add: attempt_completes_def attempt_events_def)
  next
    case None
    show ?thesis
    proof (cases "http_stream env i url output_path")
      case (Failed_before_open e)
      with None Cons.prems
      have "attempts env url output_path retries (w\<lparr>trace := trace w @ [Sleep i, Get url]\<rparr>) = (b, w')"
        by simp
      from Cons.IH[OF this] None Failed_before_open show ?thesis
        by (simp add: attempt_completes_def attempt_events_def)
    next
      case (Failed_after_open written e)
      with None Cons.prems
      have "attempts env url output_path retries
              (w\<lparr>trace := trace w @ [Sleep i, Get url], files := (files w)(output_path \<mapsto> written)\<rparr>) = (b, w')"
        by simp
      from Cons.IH[OF this] None Failed_after_open show ?thesis
        by (simp add: attempt_completes_def attempt_events_def)
    next
      case (Completed body)
      with None Cons.prems show ?thesis
        by (auto simp: attempt_completes_def attempt_events_def)
    qed
  qed
qed

lemma attempts_saved:
  "attempts env url output_path retries w = (True, w') \<Longrightarrow>
     \<exists>i\<in>set retries. \<exists>body. sleep env i = None \<and> http_stream env i url output_path = Completed body
        \<and> files w' output_path = Some body"
proof (induction retries arbitrary: w)
  case Nil
  then show ?case by simp
next
  case (Cons i retries)
  show ?case
  proof (cases "attempt_completes env url output_path i")
    case True
    with Cons.prems show ?thesis
      by (auto simp: attempt_completes_def split: option.splits attempt.splits)
  next
    case False
    with Cons.prems obtain w1 where "attempts env url output_path retries w1 = (True, w')"
      by (auto simp: attempt_completes_def Let_def split: option.splits attempt.splits)
    from Cons.IH[OF this] show ?thesis by auto
  qed
qed



subsection \<open>The validations of \<open>inspect_manuscript\<close>\<close>

lemma error_messages_distinct:
  "distinct [missing_file_error f, not_markdown_error f', page_low_error, page_high_error]"
  by (simp add: missing_file_error_def not_markdown_error_def page_low_error_def page_high_error_def)

lemma inspect_manuscript_error_cases:
  assumes "inspect_manuscript env md_file page_id = Inr result" and "is_error result"
  shows "result \<in> {[''error'' \<mapsto> Str (missing_file_error md_file)],
                    [''error'' \<mapsto> Str (not_markdown_error md_file)],
                    [''error'' \<mapsto> Str page_low_error],
                    [''error'' \<mapsto> Str page_high_error]}"
proof (rule ccontr)
  assume n: "\<not> ?thesis"
  with assms(1) obtain markdown where v: "path_exists env md_file = Inr True"
    "endswith (lower md_file) ''.md''" "1 \<le> page_id" "read_text env md_file = Inr markdown"
    "page_id \<le> int (length (pages_of markdown))"
    by (auto simp: inspect_manuscript_def bind_eq_Inr Let_def split: if_splits)
  let ?page = "pages_of markdown ! nat (page_id - 1)"
  let ?d = "add_warnings (page_result page_id (pages_of markdown)) (external_flag ?page)"
  have loop: "lint_loop env markdown (re_finditer image_pattern ?page) ?d = Inr result"
    using inspect_manuscript_page[OF v] assms(1) by simp
  have wf: "wf_result ?d" by (intro wf_add_warnings wf_page_result)
  have len: "\<forall>m\<in>set (re_finditer image_pattern ?page). length m = 2"
    by (simp add: image_matches_length)
  have "result = add_warnings ?d (concat (map (\<lambda>m. reference_flags env markdown (m ! 0) (m ! 1))
                   (re_finditer image_pattern ?page)))"
    using lint_loop_returns[OF wf len lint_loop_Inr_exists[OF wf len loop], of markdown] loop by simp
  then have "result ''error'' = None"
    by (simp add: add_warnings_other page_result_def)
  with assms(2) show False by (auto simp: is_error_def)
qed


lemma dom_error: "dom [''error'' \<mapsto> v] = {''error''}"
  by simp

subsection \<open>Decimal formatting and splitting\<close>

lemma digit_char: "n < 10 \<Longrightarrow> of_char (''0123456789'' ! n) = 48 + n"
proof -
  assume "n < 10"
  then have "n \<in> {0, 1, 2, 3, 4, 5, 6, 7, 8, 9}" by auto
  then show ?thesis by (elim insertE emptyE) simp_all
qed

lemma decimal_value_snoc: "decimal_value (s @ [c]) = 10 * decimal_value s + (of_char c - 48)"
  by (simp add: decimal_value_def)

lemma decimal_value_digits: "decimal_value (digits n) = n"
proof (induction n rule: digits.induct)
  case (1 n)
  show ?case
  proof (cases "n < 10")
    case True
    then show ?thesis by (simp add: digits.simps[of n] decimal_value_def digit_char)
  next
    case False
    then have "decimal_value (digits (n div 10)) = n div 10" by (rule "1.IH")
    moreover have "n mod 10 < 10" by simp
    ultimately show ?thesis
      using False by (simp add: digits.simps[of n] decimal_value_snoc digit_char)
  qed
qed

lemma length_digits: "length (digits n) = (if n < 10 then 1 else Suc (length (digits (n div 10))))"
  by (subst digits.simps) simp

lemma length_digits_pos: "0 < length (digits n)"
  by (subst length_digits) simp

lemma length_digits_small: "n < 100 \<Longrightarrow> length (digits n) \<le> 2"
  by (subst length_digits, subst length_digits) auto

lemma decimal_value_zeros: "decimal_value (replicate k CHR ''0'' @ s) = decimal_value s"
  by (induction k) (simp_all add: decimal_value_def)

lemma fmt_02d_decimal:
  "0 \<le> n \<Longrightarrow> 2 \<le> length (fmt_02d n) \<and> decimal_value (fmt_02d n) = nat n
     \<and> (n < 100 \<longrightarrow> length (fmt_02d n) = 2)"
  using length_digits_pos[of "nat n"] length_digits_small[of "nat n"]
  by (auto simp: fmt_02d_def decimal_value_zeros decimal_value_digits)

lemma split_py_nonempty: "split_py sep s \<noteq> []"
  by (cases s) (auto split: list.splits)

lemma join_py_Cons: "ps \<noteq> [] \<Longrightarrow> join_py sep (p # ps) = p @ sep @ join_py sep ps"
  by (cases ps) simp_all

lemma join_split_py: "join_py sep (split_py sep s) = s"
proof (induction sep s rule: split_py.induct)
  case (1 sep)
  then show ?case by simp
next
  case (2 sep c cs)
  show ?case
  proof (cases "sep \<noteq> [] \<and> prefix sep (c # cs)")
    case True
    then obtain rest where r: "c # cs = sep @ rest" by (auto simp: prefix_def)
    with True have d: "drop (length sep - 1) cs = rest"
      by (cases sep) auto
    have "split_py sep (c # cs) = [] # split_py sep rest"
      using True d by simp
    then have "join_py sep (split_py sep (c # cs)) = sep @ join_py sep (split_py sep rest)"
      by (simp add: join_py_Cons split_py_nonempty)
    with 2(1)[OF True] d r show ?thesis by simp
  next
    case False
    from 2(2)[OF False] False show ?thesis
      by (cases "split_py sep cs"; cases "tl (split_py sep cs)") (auto simp: split_py_nonempty)
  qed
qed


subsection \<open>The key \<open>warnings\<close>\<close>

lemma dom_page_result: "dom (page_result page_id pages) = {''page_id'', ''page_content''}"
  by (auto simp: page_result_def split: if_splits)

lemma add_warnings_key:
  "wf_result d \<Longrightarrow> add_warnings d ws ''warnings'' \<noteq> Some (StrList [])"
  by (auto simp: add_warnings_def wf_result_def split: option.splits pyval.splits)

lemma inspect_manuscript_wf:
  assumes "inspect_manuscript env md_file page_id = Inr result"
  shows "result ''warnings'' \<noteq> Some (StrList [])"
proof (cases "is_error result")
  case True
  from inspect_manuscript_error_cases[OF assms True] show ?thesis
    by (elim insertE emptyE) simp_all
next
  case False
  from inspect_manuscript_success[OF assms False] obtain markdown
    where "read_text env md_file = Inr markdown" by blast
  from inspect_manuscript_result[OF assms False this] show ?thesis
    using add_warnings_key[OF wf_page_result] by simp
qed

lemma reference_flags_empty:
  "path_exists env local_path = Inr True \<Longrightarrow> strip label \<noteq> [] \<Longrightarrow>
     count_py markdown local_path = 1 \<Longrightarrow> reference_flags env markdown label local_path = []"
  by (simp add: reference_flags_def strip_empty_iff)

subsection \<open>The warnings of a successful result\<close>




lemma image_match_reference:
  assumes "m \<in> set (re_finditer image_pattern page)"
  shows "\<exists>label local_path. m = [label, local_path]
           \<and> sublist (reference_text label local_path) page
           \<and> CHR ''\<newline>'' \<notin> set label \<and> CHR ''\<newline>'' \<notin> set local_path"
proof -
  from re_finditer_sound[OF assms] obtain pre w post where
    "page = pre @ w @ post" "spells image_pattern m w" by blast
  then show ?thesis by (auto simp: spells_image_pattern sublist_def)
qed

subsection \<open>The result of \<open>download_file\<close>\<close>

lemma decimal_value_str_int: "0 \<le> n \<Longrightarrow> decimal_value (str_int n) = nat n"
  by (simp add: str_int_def decimal_value_digits)

lemma failure_distinct:
  "download_success output_path @ rest \<noteq> download_failure url"
  "invalid_image e \<noteq> download_failure url"
  by (simp_all add: download_success_def download_failure_def invalid_image_def)

lemma download_file_outcome:
  assumes "mkdir_parents env output_path = None"
    and "download_file env url output_path w = (r, w')"
  shows "\<exists>b. attempts env url output_path [0..<nat (RETRY_TIMES env)] w = (b, w')
           \<and> (if b then r \<noteq> Inr (download_failure url) else r = Inr (download_failure url))"
proof -
  obtain b w1 where a: "attempts env url output_path [0..<nat (RETRY_TIMES env)] w = (b, w1)"
    by (cases "attempts env url output_path [0..<nat (RETRY_TIMES env)] w")
  show ?thesis
  proof (cases b)
    case False
    with a assms show ?thesis by (auto simp: download_file_def)
  next
    case True
    with a assms have "w' = w1 \<and> r \<noteq> Inr (download_failure url)"
      using failure_distinct failure_distinct(1)[of output_path "[]" url]
      by (auto simp: download_file_def Let_def split: if_splits sum.splits prod.splits)
    with a True show ?thesis by auto
  qed
qed

lemma attempts_saved_upt:
  assumes "attempts env url output_path [0..<n] w = (True, w')"
  shows "\<exists>i<n. \<exists>body. attempt_completes env url output_path i
           \<and> http_stream env i url output_path = Completed body
           \<and> files w' output_path = Some body"
  using attempts_saved[OF assms] by (auto simp: attempt_completes_def)

subsection \<open>The exceptions that leave the tools\<close>

lemma lint_loop_first_raise:
  assumes "wf_result d" and "\<forall>m\<in>set ms. length m = 2"
  shows "lint_loop env markdown ms d =
           (case first_raise env ms of
              Some e \<Rightarrow> Inl e
            | None \<Rightarrow> Inr (add_warnings d
                 (concat (map (\<lambda>m. reference_flags env markdown (m ! 0) (m ! 1)) ms))))"
  using assms
proof (induction ms arbitrary: d)
  case Nil
  then show ?case by simp
next
  case (Cons m ms)
  from Cons.prems have "length m = 2" by simp
  then have m: "m = [m ! 0, m ! 1]" by (rule length_two)
  note step = lint_reference_eq[OF Cons.prems(1) m, of env markdown]
  show ?case
  proof (cases "path_exists env (m ! 1)")
    case (Inl e)
    with step show ?thesis by simp
  next
    case (Inr b)
    let ?d1 = "add_warnings d (reference_flags env markdown (m ! 0) (m ! 1))"
    have wf: "wf_result ?d1" using Cons.prems(1) by (rule wf_add_warnings)
    have "lint_loop env markdown ms ?d1 =
           (case first_raise env ms of
              Some e \<Rightarrow> Inl e
            | None \<Rightarrow> Inr (add_warnings ?d1
                 (concat (map (\<lambda>m. reference_flags env markdown (m ! 0) (m ! 1)) ms))))"
      using Cons.prems(2) by (intro Cons.IH[OF wf]) simp
    with Inr step Cons.prems(1) show ?thesis
      by (simp add: add_warnings_append split: option.splits)
  qed
qed

lemma first_raise_iff:
  "first_raise env ms = Some e \<longleftrightarrow>
     (\<exists>i<length ms. path_exists env (ms ! i ! 1) = Inl e
        \<and> (\<forall>j<i. \<exists>found. path_exists env (ms ! j ! 1) = Inr found))"
proof (induction ms)
  case Nil
  then show ?case by simp
next
  case (Cons m ms)
  show ?case
  proof (cases "path_exists env (m ! 1)")
    case (Inl e')
    show ?thesis
    proof
      assume "first_raise env (m # ms) = Some e"
      with Inl have "e' = e" by simp
      with Inl have "0 < length (m # ms) \<and> path_exists env ((m # ms) ! 0 ! 1) = Inl e
        \<and> (\<forall>j<0. \<exists>found. path_exists env ((m # ms) ! j ! 1) = Inr found)"
        by simp
      then show "\<exists>i<length (m # ms). path_exists env ((m # ms) ! i ! 1) = Inl e
        \<and> (\<forall>j<i. \<exists>found. path_exists env ((m # ms) ! j ! 1) = Inr found)"
        by blast
    next
      assume "\<exists>i<length (m # ms). path_exists env ((m # ms) ! i ! 1) = Inl e
        \<and> (\<forall>j<i. \<exists>found. path_exists env ((m # ms) ! j ! 1) = Inr found)"
      then obtain i where i: "i < length (m # ms)" "path_exists env ((m # ms) ! i ! 1) = Inl e"
        "\<forall>j<i. \<exists>found. path_exists env ((m # ms) ! j ! 1) = Inr found"
        by blast
      have "i = 0"
      proof (rule ccontr)
        assume "i \<noteq> 0"
        with i(3) have "\<exists>found. path_exists env ((m # ms) ! 0 ! 1) = Inr found" by blast
        with Inl show False by simp
      qed
      with i(2) Inl show "first_raise env (m # ms) = Some e" by simp
    qed
  next
    case (Inr b)
    then have "first_raise env (m # ms) = Some e \<longleftrightarrow> first_raise env ms = Some e" by simp
    also have "\<dots> \<longleftrightarrow> (\<exists>i<length ms. path_exists env (ms ! i ! 1) = Inl e
        \<and> (\<forall>j<i. \<exists>found. path_exists env (ms ! j ! 1) = Inr found))"
      by (rule Cons.IH)
    also have "\<dots> \<longleftrightarrow> (\<exists>i<length (m # ms). path_exists env ((m # ms) ! i ! 1) = Inl e
        \<and> (\<forall>j<i. \<exists>found. path_exists env ((m # ms) ! j ! 1) = Inr found))"
    proof
      assume "\<exists>i<length ms. path_exists env (ms ! i ! 1) = Inl e
        \<and> (\<forall>j<i. \<exists>found. path_exists env (ms ! j ! 1) = Inr found)"
      then obtain i where i: "i < length ms" "path_exists env (ms ! i ! 1) = Inl e"
        "\<forall>j<i. \<exists>found. path_exists env (ms ! j ! 1) = Inr found"
        by blast
      have "\<forall>j<Suc i. \<exists>found. path_exists env ((m # ms) ! j ! 1) = Inr found"
      proof (intro allI impI)
        fix j assume "j < Suc i"
        then show "\<exists>found. path_exists env ((m # ms) ! j ! 1) = Inr found"
          using i(3) Inr by (cases j) auto
      qed
      with i(1,2) have "Suc i < length (m # ms) \<and> path_exists env ((m # ms) ! Suc i ! 1) = Inl e
        \<and> (\<forall>j<Suc i. \<exists>found. path_exists env ((m # ms) ! j ! 1) = Inr found)"
        by simp
      then show "\<exists>i<length (m # ms). path_exists env ((m # ms) ! i ! 1) = Inl e
        \<and> (\<forall>j<i. \<exists>found. path_exists env ((m # ms) ! j ! 1) = Inr found)"
        by blast
    next
      assume "\<exists>i<length (m # ms). path_exists env ((m # ms) ! i ! 1) = Inl e
        \<and> (\<forall>j<i. \<exists>found. path_exists env ((m # ms) ! j ! 1) = Inr found)"
      then obtain i where i: "i < length (m # ms)" "path_exists env ((m # ms) ! i ! 1) = Inl e"
        "\<forall>j<i. \<exists>found. path_exists env ((m # ms) ! j ! 1) = Inr found"
        by blast
      from i(2) Inr obtain k where k: "i = Suc k" by (cases i) auto
      have "\<forall>j<k. \<exists>found. path_exists env (ms ! j ! 1) = Inr found"
      proof (intro allI impI)
        fix j assume "j < k"
        then have "Suc j < i" using k by simp
        with i(3) have "\<exists>found. path_exists env ((m # ms) ! Suc j ! 1) = Inr found" by blast
        then show "\<exists>found. path_exists env (ms ! j ! 1) = Inr found" by simp
      qed
      with i(1,2) k have "k < length ms \<and> path_exists env (ms ! k ! 1) = Inl e
        \<and> (\<forall>j<k. \<exists>found. path_exists env (ms ! j ! 1) = Inr found)"
        by simp
      then show "\<exists>i<length ms. path_exists env (ms ! i ! 1) = Inl e
        \<and> (\<forall>j<i. \<exists>found. path_exists env (ms ! j ! 1) = Inr found)"
        by blast
    qed
    finally show ?thesis .
  qed
qed

lemma inspect_manuscript_Inl_iff:
  "inspect_manuscript env md_file page_id = Inl e
   \<longleftrightarrow> path_exists env md_file = Inl e
     \<or> (path_exists env md_file = Inr True \<and> endswith (lower md_file) ''.md'' \<and> 1 \<le> page_id
        \<and> (read_text env md_file = Inl e
           \<or> (\<exists>markdown. read_text env md_file = Inr markdown
               \<and> page_id \<le> int (length (pages_of markdown))
               \<and> first_raise env (re_finditer image_pattern
                    (pages_of markdown ! nat (page_id - 1))) = Some e)))"
proof (cases "path_exists env md_file")
  case (Inl e')
  then show ?thesis by (auto simp: inspect_manuscript_def)
next
  case (Inr found)
  show ?thesis
  proof (cases "found \<and> endswith (lower md_file) ''.md'' \<and> 1 \<le> page_id")
    case False
    with Inr show ?thesis by (auto simp: inspect_manuscript_def)
  next
    case True
    then have v: "path_exists env md_file = Inr True" "endswith (lower md_file) ''.md''"
      "1 \<le> page_id"
      using Inr by simp_all
    show ?thesis
    proof (cases "read_text env md_file")
      case (Inl e')
      with v show ?thesis by (auto simp: inspect_manuscript_def)
    next
      case r: (Inr markdown)
      show ?thesis
      proof (cases "page_id \<le> int (length (pages_of markdown))")
        case False
        with v r show ?thesis by (auto simp: inspect_manuscript_def Let_def)
      next
        case le: True
        let ?page = "pages_of markdown ! nat (page_id - 1)"
        let ?d = "add_warnings (page_result page_id (pages_of markdown)) (external_flag ?page)"
        have wf: "wf_result ?d" by (intro wf_add_warnings wf_page_result)
        have len: "\<forall>m\<in>set (re_finditer image_pattern ?page). length m = 2"
          by (simp add: image_matches_length)
        have "inspect_manuscript env md_file page_id = Inl e
                \<longleftrightarrow> first_raise env (re_finditer image_pattern ?page) = Some e"
          using inspect_manuscript_page[OF v r le]
            lint_loop_first_raise[OF wf len, of env markdown]
          by (simp split: option.splits)
        with v r le show ?thesis by simp
      qed
    qed
  qed
qed

lemma download_file_Inl_iff:
  "fst (download_file env url output_path w) = Inl e
   \<longleftrightarrow> mkdir_parents env output_path = Some e
     \<or> (mkdir_parents env output_path = None
        \<and> list_ex (attempt_completes env url output_path) [0..<nat (RETRY_TIMES env)]
        \<and> endswith_any (lower output_path) image_extensions
        \<and> image_open env (snd (attempts env url output_path [0..<nat (RETRY_TIMES env)] w))
             output_path = Inl e
        \<and> \<not> is_exception e)"
proof (cases "mkdir_parents env output_path")
  case (Some e')
  then show ?thesis by (simp add: download_file_def)
next
  case None
  obtain b w' where a: "attempts env url output_path [0..<nat (RETRY_TIMES env)] w = (b, w')"
    by (cases "attempts env url output_path [0..<nat (RETRY_TIMES env)] w")
  from attempts_trace[OF a]
  have l: "list_ex (attempt_completes env url output_path) [0..<nat (RETRY_TIMES env)] = b"
    by simp
  show ?thesis
  proof (cases b)
    case False
    with None a l show ?thesis by (simp add: download_file_def)
  next
    case b: True
    show ?thesis
    proof (cases "endswith_any (lower output_path) image_extensions")
      case False
      with None a b l show ?thesis by (simp add: download_file_def Let_def)
    next
      case True
      show ?thesis
      proof (cases "image_open env w' output_path")
        case (Inl e')
        with None a b l True show ?thesis by (auto simp: download_file_def Let_def)
      next
        case (Inr size)
        with None a b l True show ?thesis by (cases size) (simp add: download_file_def Let_def)
      qed
    qed
  qed
qed

lemma handler_Inl_iff: "handler e' = Inl e \<longleftrightarrow> e' = e \<and> \<not> is_exception e"
  by (auto simp: handler_def)

lemma inspect_slide_Inl_iff:
  "fst (inspect_slide env html_file aspect_ratio) = Inl e
   \<longleftrightarrow> path_absolute env html_file = Inl e
     \<or> (\<exists>html_path. path_absolute env html_file = Inr html_path
          \<and> (path_exists env html_path = Inl e
             \<or> (path_exists env html_path = Inr True \<and> path_suffix env html_path = ''.html''
                \<and> aspect_ratio \<in> {''widescreen'', ''normal'', ''A1''} \<and> \<not> is_exception e
                \<and> (convert_html_to_pptx env html_path aspect_ratio = Inl e
                   \<or> (\<exists>pptx_path. convert_html_to_pptx env html_path aspect_ratio = Inr pptx_path
                        \<and> (temporary_directory env = Inl e
                           \<or> (\<exists>tmp_dir. temporary_directory env = Inr tmp_dir
                                \<and> ppt_to_images env pptx_path tmp_dir = Inl e)))))))"
proof (cases "path_absolute env html_file")
  case (Inl e')
  then show ?thesis by (simp add: inspect_slide_def)
next
  case a: (Inr html_path)
  show ?thesis
  proof (cases "path_exists env html_path")
    case (Inl e')
    with a show ?thesis by (simp add: inspect_slide_def)
  next
    case x: (Inr found)
    show ?thesis
    proof (cases "found \<and> path_suffix env html_path = ''.html''
                  \<and> aspect_ratio \<in> {''widescreen'', ''normal'', ''A1''}")
      case False
      with a x show ?thesis by (auto simp: inspect_slide_def)
    next
      case True
      then have v: "found" "path_suffix env html_path = ''.html''"
        "aspect_ratio \<in> set [''widescreen'', ''normal'', ''A1'']"
        by simp_all
      show ?thesis
      proof (cases "convert_html_to_pptx env html_path aspect_ratio")
        case (Inl e')
        have "fst (inspect_slide env html_file aspect_ratio) = handler e'"
          using a x v Inl by (simp add: inspect_slide_def)
        with a x True Inl show ?thesis by (auto simp: handler_Inl_iff)
      next
        case c: (Inr pptx_path)
        show ?thesis
        proof (cases "temporary_directory env")
          case (Inl e')
          have "fst (inspect_slide env html_file aspect_ratio) = handler e'"
            using a x v c Inl by (simp add: inspect_slide_def)
          with a x True c Inl show ?thesis by (auto simp: handler_Inl_iff)
        next
          case t: (Inr tmp_dir)
          show ?thesis
          proof (cases "ppt_to_images env pptx_path tmp_dir")
            case (Inl e')
            have "fst (inspect_slide env html_file aspect_ratio) = handler e'"
              using a x v c t Inl by (simp add: inspect_slide_def)
            with a x True c t Inl show ?thesis by (auto simp: handler_Inl_iff)
          next
            case (Inr produced)
            have "\<exists>v. fst (inspect_slide env html_file aspect_ratio) = Inr v"
              using a x v c t Inr
              by (cases "produced ''slide_0001.jpg''") (simp_all add: inspect_slide_def)
            with a x c t Inr show ?thesis by auto
          qed
        qed
      qed
    qed
  qed
qed

lemma markdown_table_to_image_Inl_iff:
  "markdown_table_to_image env markdown_table path css = Inl e
   \<longleftrightarrow> markdown_to_html env markdown_table = Inl e
     \<or> (\<exists>html. markdown_to_html env markdown_table = Inr html
           \<and> get_html_table_image env html path css = Some e)"
  by (cases "markdown_to_html env markdown_table")
     (auto simp: markdown_table_to_image_def split: option.splits)

subsection \<open>What the search for external images finds\<close>









section \<open>Properties of the tools\<close>

text \<open>
  Claim C2. \<open>inspect_manuscript\<close> checks, in this order, that the file exists, that its
  name ends in \<open>.md\<close> (whatever the case), that the page number is at least 1 and, after
  reading the file, that the page number is at most the number of pages (the
  non-whitespace pieces of the document split at the delimiter). The first check that
  fails decides the result, whatever the later ones would give; each has a message of
  its own; an error result has the key \<open>error\<close> and no other key. A page number above
  the page count always gives an error.
\<close>

theorem inspect_manuscript_validation:
  "(path_exists env md_file = Inr False \<longrightarrow>
      inspect_manuscript env md_file page_id = Inr [''error'' \<mapsto> Str (missing_file_error md_file)])
   \<and> (path_exists env md_file = Inr True \<and> \<not> endswith (lower md_file) ''.md'' \<longrightarrow>
      inspect_manuscript env md_file page_id = Inr [''error'' \<mapsto> Str (not_markdown_error md_file)])
   \<and> (path_exists env md_file = Inr True \<and> endswith (lower md_file) ''.md'' \<and> page_id < 1 \<longrightarrow>
      inspect_manuscript env md_file page_id = Inr [''error'' \<mapsto> Str page_low_error])
   \<and> (path_exists env md_file = Inr True \<and> endswith (lower md_file) ''.md'' \<and> 1 \<le> page_id
        \<and> read_text env md_file = Inr markdown \<and> int (length (pages_of markdown)) < page_id \<longrightarrow>
      inspect_manuscript env md_file page_id = Inr [''error'' \<mapsto> Str page_high_error])
   \<and> distinct [missing_file_error md_file, not_markdown_error md_file, page_low_error,
                page_high_error]
   \<and> (inspect_manuscript env md_file page_id = Inr result \<and> is_error result \<longrightarrow>
        dom result = {''error''}
        \<and> ''page_id'' \<notin> dom result \<and> ''page_content'' \<notin> dom result \<and> ''warnings'' \<notin> dom result)
   \<and> (path_exists env md_file = Inr found \<and> read_text env md_file = Inr markdown
        \<and> int (length (pages_of markdown)) < page_id \<longrightarrow>
        (\<exists>r. inspect_manuscript env md_file page_id = Inr r \<and> is_error r))"
proof (intro conjI impI)
  assume "path_exists env md_file = Inr False"
  then show "inspect_manuscript env md_file page_id
               = Inr [''error'' \<mapsto> Str (missing_file_error md_file)]"
    by (simp add: inspect_manuscript_def)
next
  assume "path_exists env md_file = Inr True \<and> \<not> endswith (lower md_file) ''.md''"
  then show "inspect_manuscript env md_file page_id
               = Inr [''error'' \<mapsto> Str (not_markdown_error md_file)]"
    by (simp add: inspect_manuscript_def)
next
  assume "path_exists env md_file = Inr True \<and> endswith (lower md_file) ''.md'' \<and> page_id < 1"
  then show "inspect_manuscript env md_file page_id = Inr [''error'' \<mapsto> Str page_low_error]"
    by (simp add: inspect_manuscript_def)
next
  assume "path_exists env md_file = Inr True \<and> endswith (lower md_file) ''.md'' \<and> 1 \<le> page_id
        \<and> read_text env md_file = Inr markdown \<and> int (length (pages_of markdown)) < page_id"
  then show "inspect_manuscript env md_file page_id = Inr [''error'' \<mapsto> Str page_high_error]"
    by (simp add: inspect_manuscript_def Let_def)
next
  show "distinct [missing_file_error md_file, not_markdown_error md_file, page_low_error,
                page_high_error]"
    by (rule error_messages_distinct)
next
  assume a: "inspect_manuscript env md_file page_id = Inr result \<and> is_error result"
  then have "result \<in> {[''error'' \<mapsto> Str (missing_file_error md_file)],
                    [''error'' \<mapsto> Str (not_markdown_error md_file)],
                    [''error'' \<mapsto> Str page_low_error],
                    [''error'' \<mapsto> Str page_high_error]}"
    using inspect_manuscript_error_cases[of env md_file page_id result] by simp
  then have d: "dom result = {''error''}"
    by (elim insertE emptyE) simp_all
  then show "dom result = {''error''}" "''page_id'' \<notin> dom result"
    "''page_content'' \<notin> dom result" "''warnings'' \<notin> dom result"
    by simp_all
next
  assume a: "path_exists env md_file = Inr found \<and> read_text env md_file = Inr markdown
        \<and> int (length (pages_of markdown)) < page_id"
  then have "inspect_manuscript env md_file page_id
               \<in> {Inr [''error'' \<mapsto> Str (missing_file_error md_file)],
                   Inr [''error'' \<mapsto> Str (not_markdown_error md_file)],
                   Inr [''error'' \<mapsto> Str page_low_error],
                   Inr [''error'' \<mapsto> Str page_high_error]}"
    by (simp add: inspect_manuscript_def Let_def)
  then show "\<exists>r. inspect_manuscript env md_file page_id = Inr r \<and> is_error r"
    by (auto simp: is_error_def)
qed

theorem inspect_manuscript_validation_witness:
  "inspect_manuscript env_ok ''absent.md'' 1 = Inr [''error'' \<mapsto> Str (missing_file_error ''absent.md'')]
   \<and> inspect_manuscript env_ok ''deck.txt'' 1 = Inr [''error'' \<mapsto> Str (not_markdown_error ''deck.txt'')]
   \<and> inspect_manuscript env_ok ''deck.md'' 0 = Inr [''error'' \<mapsto> Str page_low_error]
   \<and> length (pages_of deck_md) = 2
   \<and> inspect_manuscript env_ok ''deck.md'' 3 = Inr [''error'' \<mapsto> Str page_high_error]
   \<and> is_error [''error'' \<mapsto> Str page_high_error]
   \<and> dom [''error'' \<mapsto> Str page_high_error] = {''error''}"
proof -
  have e0: "path_exists env_ok ''absent.md'' = Inr False"
    and e1: "path_exists env_ok ''deck.txt'' = Inr True"
    and e2: "path_exists env_ok ''deck.md'' = Inr True"
    and r2: "read_text env_ok ''deck.md'' = Inr deck_md"
    by (simp_all add: env_ok_def)
  have x1: "\<not> endswith (lower ''deck.txt'') ''.md''" by code_simp
  have x2: "endswith (lower ''deck.md'') ''.md''" by code_simp
  have n: "length (pages_of deck_md) = 2" by code_simp
  have a: "inspect_manuscript env_ok ''absent.md'' 1
             = Inr [''error'' \<mapsto> Str (missing_file_error ''absent.md'')]"
    using inspect_manuscript_validation[of env_ok "''absent.md''" 1] e0 by simp
  have b: "inspect_manuscript env_ok ''deck.txt'' 1
             = Inr [''error'' \<mapsto> Str (not_markdown_error ''deck.txt'')]"
    using inspect_manuscript_validation[of env_ok "''deck.txt''" 1] e1 x1 by simp
  have c: "inspect_manuscript env_ok ''deck.md'' 0 = Inr [''error'' \<mapsto> Str page_low_error]"
    using inspect_manuscript_validation[of env_ok "''deck.md''" 0] e2 x2 by simp
  have d: "inspect_manuscript env_ok ''deck.md'' 3 = Inr [''error'' \<mapsto> Str page_high_error]"
    using inspect_manuscript_validation[of env_ok "''deck.md''" 3 deck_md] e2 x2 r2 n by simp
  have e: "is_error [''error'' \<mapsto> Str page_high_error]" by (simp add: is_error_def)
  have f: "dom [''error'' \<mapsto> Str page_high_error] = {''error''}"
    using inspect_manuscript_validation[of env_ok "''deck.md''" 3 deck_md "[''error'' \<mapsto> Str page_high_error]"] d e
    by simp
  from a b c n d e f show ?thesis by simp
qed

text \<open>
  Claim C10. When a valid call inspects a page with no external image reference and
  whose every image reference has an existing path, a label that is not blank and a
  path that occurs exactly once in the document, the result is returned with the keys
  \<open>page_id\<close> and \<open>page_content\<close> only: the key \<open>warnings\<close> is absent. No result ever
  holds an empty list under \<open>warnings\<close>, and a successful result has the key exactly
  when the page has a warning.
\<close>

theorem inspect_manuscript_no_warnings_key:
  "(path_exists env md_file = Inr True \<and> endswith (lower md_file) ''.md'' \<and> 1 \<le> page_id
      \<and> read_text env md_file = Inr markdown \<and> page_id \<le> int (length (pages_of markdown))
      \<and> re_search external_image_pattern (pages_of markdown ! nat (page_id - 1)) = None
      \<and> (\<forall>m\<in>set (re_finditer image_pattern (pages_of markdown ! nat (page_id - 1))).
            path_exists env (m ! 1) = Inr True \<and> strip (m ! 0) \<noteq> []
            \<and> count_py markdown (m ! 1) = 1)
    \<longrightarrow> (\<exists>result. inspect_manuscript env md_file page_id = Inr result
           \<and> dom result = {''page_id'', ''page_content''}
           \<and> result ''warnings'' = None))
   \<and> (inspect_manuscript env md_file page_id = Inr r \<longrightarrow> r ''warnings'' \<noteq> Some (StrList []))
   \<and> (inspect_manuscript env md_file page_id = Inr r \<and> \<not> is_error r
        \<and> read_text env md_file = Inr markdown
    \<longrightarrow> (''warnings'' \<in> dom r
           \<longleftrightarrow> page_warnings env markdown (pages_of markdown ! nat (page_id - 1)) \<noteq> []))"
proof (intro conjI impI)
  let ?page = "pages_of markdown ! nat (page_id - 1)"
  assume a: "path_exists env md_file = Inr True \<and> endswith (lower md_file) ''.md'' \<and> 1 \<le> page_id
      \<and> read_text env md_file = Inr markdown \<and> page_id \<le> int (length (pages_of markdown))
      \<and> re_search external_image_pattern ?page = None
      \<and> (\<forall>m\<in>set (re_finditer image_pattern ?page).
            path_exists env (m ! 1) = Inr True \<and> strip (m ! 0) \<noteq> []
            \<and> count_py markdown (m ! 1) = 1)"
  then have ex: "\<forall>m\<in>set (re_finditer image_pattern ?page). \<exists>b. path_exists env (m ! 1) = Inr b"
    by blast
  have "\<forall>m\<in>set (re_finditer image_pattern ?page). reference_flags env markdown (m ! 0) (m ! 1) = []"
    using a by (simp add: reference_flags_empty)
  then have none: "page_warnings env markdown ?page = []"
    using a by (simp add: page_warnings_def)
  have "inspect_manuscript env md_file page_id
          = Inr (add_warnings (page_result page_id (pages_of markdown))
                  (page_warnings env markdown ?page))"
    using a ex by (intro inspect_manuscript_returns) simp_all
  then have "inspect_manuscript env md_file page_id = Inr (page_result page_id (pages_of markdown))"
    by (simp add: none)
  moreover have "page_result page_id (pages_of markdown) ''warnings'' = None"
    by (simp add: page_result_def)
  ultimately show "\<exists>result. inspect_manuscript env md_file page_id = Inr result
           \<and> dom result = {''page_id'', ''page_content''} \<and> result ''warnings'' = None"
    using dom_page_result by blast
next
  assume "inspect_manuscript env md_file page_id = Inr r"
  then show "r ''warnings'' \<noteq> Some (StrList [])" by (rule inspect_manuscript_wf)
next
  let ?page = "pages_of markdown ! nat (page_id - 1)"
  assume "inspect_manuscript env md_file page_id = Inr r \<and> \<not> is_error r
        \<and> read_text env md_file = Inr markdown"
  then have s: "inspect_manuscript env md_file page_id = Inr r" "\<not> is_error r"
    "read_text env md_file = Inr markdown"
    by simp_all
  from inspect_manuscript_result[OF s]
  have "r = add_warnings (page_result page_id (pages_of markdown)) (page_warnings env markdown ?page)"
    by simp
  then show "''warnings'' \<in> dom r \<longleftrightarrow> page_warnings env markdown ?page \<noteq> []"
    by (simp add: add_warnings_def page_result_def domIff)
qed

theorem inspect_manuscript_no_warnings_key_witness:
  "pages_of clean_md = [''# Title\<newline>![logo](a.png)'']
   \<and> re_search external_image_pattern ''# Title\<newline>![logo](a.png)'' = None
   \<and> re_finditer image_pattern ''# Title\<newline>![logo](a.png)'' = [[''logo'', ''a.png'']]
   \<and> count_py clean_md ''a.png'' = 1
   \<and> (\<exists>result. inspect_manuscript env_ok ''clean.md'' 1 = Inr result
          \<and> dom result = {''page_id'', ''page_content''} \<and> result ''warnings'' = None)"
proof -
  have e: "path_exists env_ok ''clean.md'' = Inr True"
    and r: "read_text env_ok ''clean.md'' = Inr clean_md"
    and i: "path_exists env_ok ''a.png'' = Inr True"
    by (simp_all add: env_ok_def)
  have x: "endswith (lower ''clean.md'') ''.md''" by code_simp
  have p: "pages_of clean_md = [''# Title\<newline>![logo](a.png)'']" by code_simp
  have s: "re_search external_image_pattern ''# Title\<newline>![logo](a.png)'' = None" by code_simp
  have m: "re_finditer image_pattern ''# Title\<newline>![logo](a.png)'' = [[''logo'', ''a.png'']]"
    by code_simp
  have c: "count_py clean_md ''a.png'' = 1" by code_simp
  have l: "strip ''logo'' \<noteq> []" by code_simp
  from inspect_manuscript_no_warnings_key[of env_ok "''clean.md''" 1 clean_md Map.empty]
    e r i x p s m c l
  show ?thesis by simp
qed



text \<open>
  Claim C7. When an attempt completes and the lower-cased output path ends in one of
  \<open>.png .jpg .jpeg .gif .webp .bmp\<close>, the output file holds the body of a completed
  attempt, and the result is decided by decoding that file: with the size
  \<open>(width, height)\<close> the success message ends in \<open>(resolution: width x height)\<close>, both
  in decimal; when the decoder raises an \<open>Exception\<close> \<open>e\<close> the result is
  \<open>The provided URL does not point to a valid image file: e\<close>. An object that is not
  an \<open>Exception\<close> passes the handler of line 55 and is raised. In no case is the
  result the failure string of the retry loop.
\<close>

theorem download_file_image_resolution:
  assumes "mkdir_parents env output_path = None"
    and "list_ex (attempt_completes env url output_path) [0..<nat (RETRY_TIMES env)]"
    and "endswith_any (lower output_path) image_extensions"
    and "download_file env url output_path w = (r, w')"
  shows "\<exists>i<nat (RETRY_TIMES env). \<exists>body.
           attempt_completes env url output_path i
           \<and> http_stream env i url output_path = Completed body
           \<and> files w' output_path = Some body
           \<and> r \<noteq> Inr (download_failure url)
           \<and> (case image_size env body of
                 Inr (width, height) \<Rightarrow>
                   r = Inr (''File downloaded to '' @ output_path @ '' (resolution: ''
                            @ str_int width @ ''x'' @ str_int height @ '')'')
                   \<and> (0 \<le> width \<and> 0 \<le> height \<longrightarrow>
                        decimal_value (str_int width) = nat width
                        \<and> decimal_value (str_int height) = nat height)
               | Inl e \<Rightarrow>
                   (is_exception e \<longrightarrow>
                      r = Inr (''The provided URL does not point to a valid image file: ''
                               @ str_exn e))
                   \<and> (\<not> is_exception e \<longrightarrow> r = Inl e))"
proof -
  from download_file_outcome[OF assms(1,4)] obtain b where
    a: "attempts env url output_path [0..<nat (RETRY_TIMES env)] w = (b, w')"
    and nf: "if b then r \<noteq> Inr (download_failure url) else r = Inr (download_failure url)"
    by blast
  from attempts_trace[OF a] assms(2) have b by simp
  with a have a': "attempts env url output_path [0..<nat (RETRY_TIMES env)] w = (True, w')"
    by simp
  from nf \<open>b\<close> have nf': "r \<noteq> Inr (download_failure url)" by simp
  from attempts_saved_upt[OF a'] obtain i body where i: "i < nat (RETRY_TIMES env)"
    "attempt_completes env url output_path i" "http_stream env i url output_path = Completed body"
    "files w' output_path = Some body"
    by blast
  have "case image_size env body of
                 Inr (width, height) \<Rightarrow>
                   r = Inr (''File downloaded to '' @ output_path @ '' (resolution: ''
                            @ str_int width @ ''x'' @ str_int height @ '')'')
                   \<and> (0 \<le> width \<and> 0 \<le> height \<longrightarrow>
                        decimal_value (str_int width) = nat width
                        \<and> decimal_value (str_int height) = nat height)
               | Inl e \<Rightarrow>
                   (is_exception e \<longrightarrow>
                      r = Inr (''The provided URL does not point to a valid image file: ''
                               @ str_exn e))
                   \<and> (\<not> is_exception e \<longrightarrow> r = Inl e)"
    using assms(1,3,4) a' i(4)
    by (auto simp: download_file_def image_open_def resolution_suffix_def download_success_def
          decimal_value_str_int invalid_image_def split: sum.splits)
  with i nf' show ?thesis by blast
qed

theorem download_file_image_resolution_witness:
  "endswith_any (lower ''img/pic.GIF'') image_extensions
   \<and> fst (download_file env_ok ''http://e.com/pic.gif'' ''img/pic.GIF'' start)
       = Inr ''File downloaded to img/pic.GIF (resolution: 640x480)''
   \<and> files (snd (download_file env_ok ''http://e.com/pic.gif'' ''img/pic.GIF'' start)) ''img/pic.GIF''
       = Some ''GIF89a''
   \<and> image_size env_ok ''GIF89a'' = Inr (640, 480)
   \<and> fst (download_file env_ok ''http://e.com/page'' ''img/page.png'' start)
       = Inr ''The provided URL does not point to a valid image file: cannot identify image file''"
proof -
  let ?url = "''http://e.com/pic.gif''"
  let ?out = "''img/pic.GIF''"
  let ?case = "\<lambda>out r body. case image_size env_ok body of
                 Inr (width, height) \<Rightarrow>
                   r = Inr (''File downloaded to '' @ out @ '' (resolution: ''
                            @ str_int width @ ''x'' @ str_int height @ '')'')
                   \<and> (0 \<le> width \<and> 0 \<le> height \<longrightarrow>
                        decimal_value (str_int width) = nat width
                        \<and> decimal_value (str_int height) = nat height)
               | Inl e \<Rightarrow>
                   (is_exception e \<longrightarrow>
                      r = Inr (''The provided URL does not point to a valid image file: ''
                               @ str_exn e))
                   \<and> (\<not> is_exception e \<longrightarrow> r = Inl e)"
  have m: "\<And>p. mkdir_parents env_ok p = None"
    and sz: "image_size env_ok ''GIF89a'' = Inr (640, 480)"
      "image_size env_ok ''<html>'' = Inl (Exception ''cannot identify image file'')"
    and n: "nat (RETRY_TIMES env_ok) = 3"
    by (simp_all add: env_ok_def)
  have c: "list_ex (attempt_completes env_ok ?url ?out) [0..<nat (RETRY_TIMES env_ok)]"
    "list_ex (attempt_completes env_ok ''http://e.com/page'' ''img/page.png'') [0..<nat (RETRY_TIMES env_ok)]"
    by code_simp+
  have x: "endswith_any (lower ?out) image_extensions"
    "endswith_any (lower ''img/page.png'') image_extensions"
    by code_simp+
  have h: "\<And>i. i < 3 \<Longrightarrow> attempt_completes env_ok ?url ?out i \<Longrightarrow>
             http_stream env_ok i ?url ?out = Completed ''GIF89a''"
    "\<And>i. i < 3 \<Longrightarrow> attempt_completes env_ok ''http://e.com/page'' ''img/page.png'' i \<Longrightarrow>
             http_stream env_ok i ''http://e.com/page'' ''img/page.png'' = Completed ''<html>''"
    by (auto simp: attempt_completes_def env_ok_def split: if_splits)
  have s640: "str_int 640 = ''640''" and s480: "str_int 480 = ''480''" by code_simp+
  obtain r w' where d: "download_file env_ok ?url ?out start = (r, w')"
    by (cases "download_file env_ok ?url ?out start")
  from download_file_image_resolution[OF m c(1) x(1) d] obtain i body where
    i: "i < 3" "attempt_completes env_ok ?url ?out i" "http_stream env_ok i ?url ?out = Completed body"
       "files w' ?out = Some body"
    and r: "?case ?out r body"
    unfolding n by blast
  from h(1)[OF i(1,2)] i(3) have body: "body = ''GIF89a''" by simp
  from r have "r = Inr ''File downloaded to img/pic.GIF (resolution: 640x480)''"
    by (simp add: body sz s640 s480)
  with d i(4) body have a: "fst (download_file env_ok ?url ?out start)
       = Inr ''File downloaded to img/pic.GIF (resolution: 640x480)''
     \<and> files (snd (download_file env_ok ?url ?out start)) ?out = Some ''GIF89a''"
    by simp
  obtain r2 w2 where d2: "download_file env_ok ''http://e.com/page'' ''img/page.png'' start = (r2, w2)"
    by (cases "download_file env_ok ''http://e.com/page'' ''img/page.png'' start")
  from download_file_image_resolution[OF m c(2) x(2) d2] obtain j body2 where
    j: "j < 3" "attempt_completes env_ok ''http://e.com/page'' ''img/page.png'' j"
       "http_stream env_ok j ''http://e.com/page'' ''img/page.png'' = Completed body2"
    and r2: "?case ''img/page.png'' r2 body2"
    unfolding n by blast
  from h(2)[OF j(1,2)] j(3) have body2: "body2 = ''<html>''" by simp
  from r2 have "r2 = Inr ''The provided URL does not point to a valid image file: cannot identify image file''"
    by (simp add: body2 sz)
  with d2 have b: "fst (download_file env_ok ''http://e.com/page'' ''img/page.png'' start)
       = Inr ''The provided URL does not point to a valid image file: cannot identify image file''"
    by simp
  from x(1) a sz(1) b show ?thesis by blast
qed

text \<open>
  Claim C8. \<open>markdown_table_to_image\<close> checks nothing about its arguments: whenever the
  converter returns the HTML and the rasterizer returns, for any table text, path and
  CSS (the empty CSS included), the result is
  \<open>Markdown table converted to image and saved to path\<close>, which ends with the path as
  given. It is the only value the tool ever returns, and the only exceptions are those
  of the converter and of the rasterizer.
\<close>

theorem markdown_table_to_image_confirmation:
  "(markdown_to_html env markdown_table = Inr html
      \<and> get_html_table_image env html path css = None
    \<longrightarrow> markdown_table_to_image env markdown_table path css
          = Inr (''Markdown table converted to image and saved to '' @ path)
        \<and> suffix path (''Markdown table converted to image and saved to '' @ path))
   \<and> (markdown_table_to_image env markdown_table path css = Inr s
    \<longrightarrow> s = table_confirmation path
        \<and> (\<exists>html. markdown_to_html env markdown_table = Inr html
              \<and> get_html_table_image env html path css = None))
   \<and> (markdown_table_to_image env markdown_table path css = Inl e
    \<longrightarrow> markdown_to_html env markdown_table = Inl e
        \<or> (\<exists>html. markdown_to_html env markdown_table = Inr html
              \<and> get_html_table_image env html path css = Some e))"
  by (cases "markdown_to_html env markdown_table")
     (auto simp: markdown_table_to_image_def table_confirmation_def suffix_def
           split: option.splits)

theorem markdown_table_to_image_confirmation_witness:
  "markdown_to_html env_ok ''| a | b |'' = Inr ''<table>| a | b |</table>''
   \<and> get_html_table_image env_ok ''<table>| a | b |</table>'' ''out/table.png'' [] = None
   \<and> markdown_table_to_image env_ok ''| a | b |'' ''out/table.png'' []
       = Inr ''Markdown table converted to image and saved to out/table.png''"
proof -
  have h: "markdown_to_html env_ok ''| a | b |'' = Inr ''<table>| a | b |</table>''"
    and g: "get_html_table_image env_ok ''<table>| a | b |</table>'' ''out/table.png'' [] = None"
    by (simp_all add: env_ok_def)
  from markdown_table_to_image_confirmation[of env_ok "''| a | b |''"
         "''<table>| a | b |</table>''" "''out/table.png''" "[]"] h g
  show ?thesis by simp
qed

text \<open>
  Claim C9, as amended. With the absolute path of \<open>html_file\<close>: when the path does not
  exist or its suffix is not \<open>.html\<close>, \<open>inspect_slide\<close> returns the error string about
  the path, and with an aspect ratio other than \<open>widescreen\<close>, \<open>normal\<close> and \<open>A1\<close> the
  error string about the aspect ratio, in both cases with no conversion and no
  rasterization made. Otherwise an \<open>Exception\<close> raised by the conversion, by the
  temporary directory or by the rasterization is returned as the exception object
  itself; a rasterization that leaves no \<open>slide_0001.jpg\<close> gives the failure string;
  and an image gives the content of type \<open>image\<close> whose data is
  \<open>data:image/jpeg;base64,\<close> followed by the encoded bytes, with the MIME type
  \<open>image/jpeg\<close>. Two kinds of exceptions are not caught: whatever \<open>Path.absolute\<close> or
  \<open>Path.exists\<close> raises before the \<open>try\<close> of line 92, and an object raised inside the
  \<open>try\<close> that is not an \<open>Exception\<close>; both leave the tool. The claim as stated, that any
  other exception is caught and returned, fails on the environments \<open>env_cancel\<close> and
  \<open>env_denied\<close>.
\<close>

theorem inspect_slide_results:
  "(path_absolute env html_file = Inl e
    \<longrightarrow> inspect_slide env html_file aspect_ratio = (Inl e, []))
   \<and> (path_absolute env html_file = Inr html_path \<and> path_exists env html_path = Inl e
    \<longrightarrow> inspect_slide env html_file aspect_ratio = (Inl e, []))
   \<and> (path_absolute env html_file = Inr html_path \<and> path_exists env html_path = Inr found
      \<and> \<not> (found \<and> path_suffix env html_path = ''.html'')
    \<longrightarrow> inspect_slide env html_file aspect_ratio
          = (Inr (Message (''HTML path '' @ html_path @ '' does not exist or is not an HTML file'')),
             []))
   \<and> (path_absolute env html_file = Inr html_path \<and> path_exists env html_path = Inr True
      \<and> path_suffix env html_path = ''.html''
      \<and> aspect_ratio \<notin> {''widescreen'', ''normal'', ''A1''}
    \<longrightarrow> inspect_slide env html_file aspect_ratio = (Inr (Message invalid_aspect_ratio), []))
   \<and> (path_absolute env html_file = Inr html_path \<and> path_exists env html_path = Inr True
      \<and> path_suffix env html_path = ''.html''
      \<and> aspect_ratio \<in> {''widescreen'', ''normal'', ''A1''}
    \<longrightarrow> (convert_html_to_pptx env html_path aspect_ratio = Inl e
          \<longrightarrow> fst (inspect_slide env html_file aspect_ratio) = handler e)
        \<and> (convert_html_to_pptx env html_path aspect_ratio = Inr pptx_path
          \<longrightarrow> (temporary_directory env = Inl e
                \<longrightarrow> fst (inspect_slide env html_file aspect_ratio) = handler e)
              \<and> (temporary_directory env = Inr tmp_dir
                \<longrightarrow> (ppt_to_images env pptx_path tmp_dir = Inl e
                      \<longrightarrow> fst (inspect_slide env html_file aspect_ratio) = handler e)
                    \<and> (ppt_to_images env pptx_path tmp_dir = Inr produced
                        \<and> produced ''slide_0001.jpg'' = None
                      \<longrightarrow> fst (inspect_slide env html_file aspect_ratio)
                            = Inr (Message no_slide_image))
                    \<and> (ppt_to_images env pptx_path tmp_dir = Inr produced
                        \<and> produced ''slide_0001.jpg'' = Some image_data
                      \<longrightarrow> fst (inspect_slide env html_file aspect_ratio)
                            = Inr (Image \<lparr>content_type = ''image'',
                                data = ''data:image/jpeg;base64,'' @ b64encode env image_data,
                                mimeType = ''image/jpeg''\<rparr>)))))
   \<and> (is_exception e \<longrightarrow> handler e = Inr (Exception_object e))
   \<and> (\<not> is_exception e \<longrightarrow> handler e = Inl e)"
  by (auto simp: inspect_slide_def invalid_html_path_def handler_def)

theorem inspect_slide_counterexample:
  "fst (inspect_slide env_cancel ''slide.html'' ''widescreen'') = Inl (BaseException ''CancelledError'')
   \<and> fst (inspect_slide env_denied ''slide.html'' ''widescreen'') = Inl (Exception ''Permission denied'')"
proof -
  have s: "path_suffix env_ok ''/work/slide.html'' = ''.html''"
    by (simp add: env_ok_def endswith_def suffix_to_prefix)
  then have "fst (inspect_slide env_cancel ''slide.html'' ''widescreen'')
               = Inl (BaseException ''CancelledError'')"
    by (simp add: inspect_slide_def env_cancel_def env_ok_def handler_def)
  moreover have "fst (inspect_slide env_denied ''slide.html'' ''widescreen'')
               = Inl (Exception ''Permission denied'')"
    by (simp add: inspect_slide_def env_denied_def env_ok_def)
  ultimately show ?thesis by blast
qed

theorem inspect_slide_results_witness:
  "fst (inspect_slide env_ok ''slide.html'' ''widescreen'')
     = Inr (Image \<lparr>content_type = ''image'', data = ''data:image/jpeg;base64,SlBFRw=='',
                    mimeType = ''image/jpeg''\<rparr>)
   \<and> inspect_slide env_ok ''slide.html'' ''tall'' = (Inr (Message invalid_aspect_ratio), [])
   \<and> inspect_slide env_ok ''other.html'' ''widescreen''
       = (Inr (Message ''HTML path /work/other.html does not exist or is not an HTML file''), [])
   \<and> inspect_slide env_denied ''slide.html'' ''widescreen''
       = (Inl (Exception ''Permission denied''), [])
   \<and> fst (inspect_slide env_cancel ''slide.html'' ''widescreen'')
       = Inl (BaseException ''CancelledError'')"
proof -
  have a: "path_absolute env_ok ''slide.html'' = Inr ''/work/slide.html''"
    "path_absolute env_ok ''other.html'' = Inr ''/work/other.html''"
    "path_absolute env_denied ''slide.html'' = Inr ''/work/slide.html''"
    "path_absolute env_cancel ''slide.html'' = Inr ''/work/slide.html''"
    and e: "path_exists env_ok ''/work/slide.html'' = Inr True"
      "path_exists env_ok ''/work/other.html'' = Inr False"
      "path_exists env_denied ''/work/slide.html'' = Inl (Exception ''Permission denied'')"
      "path_exists env_cancel ''/work/slide.html'' = Inr True"
    and c: "convert_html_to_pptx env_ok ''/work/slide.html'' ''widescreen'' = Inr ''/tmp/slide.pptx''"
      "convert_html_to_pptx env_cancel ''/work/slide.html'' ''widescreen''
         = Inl (BaseException ''CancelledError'')"
    and t: "temporary_directory env_ok = Inr ''/tmp/dir''"
    and p: "ppt_to_images env_ok ''/tmp/slide.pptx'' ''/tmp/dir'' = Inr [''slide_0001.jpg'' \<mapsto> ''JPEG'']"
    and b: "b64encode env_ok ''JPEG'' = ''SlBFRw==''"
    by (simp_all add: env_ok_def env_denied_def env_cancel_def)
  have s: "path_suffix env_ok ''/work/slide.html'' = ''.html''"
    "path_suffix env_cancel ''/work/slide.html'' = ''.html''"
    by (simp_all add: env_ok_def env_cancel_def endswith_def suffix_to_prefix)
  have k: "[''slide_0001.jpg'' \<mapsto> ''JPEG''] ''slide_0001.jpg'' = Some ''JPEG''" by simp
  have w: "''widescreen'' \<in> {''widescreen'', ''normal'', ''A1''}"
    and n: "''tall'' \<notin> {''widescreen'', ''normal'', ''A1''}"
    and nb: "\<not> is_exception (BaseException ''CancelledError'')"
    by simp_all
  have "fst (inspect_slide env_ok ''slide.html'' ''widescreen'')
     = Inr (Image \<lparr>content_type = ''image'', data = ''data:image/jpeg;base64,'' @ b64encode env_ok ''JPEG'',
                    mimeType = ''image/jpeg''\<rparr>)"
    using inspect_slide_results[of env_ok "''slide.html''" "Exception []" "''widescreen''"
            "''/work/slide.html''" True "''/tmp/slide.pptx''" "''/tmp/dir''"
            "[''slide_0001.jpg'' \<mapsto> ''JPEG'']" "''JPEG''"] a(1) e(1) s(1) w c(1) t p k
    by simp
  then have x: "fst (inspect_slide env_ok ''slide.html'' ''widescreen'')
     = Inr (Image \<lparr>content_type = ''image'', data = ''data:image/jpeg;base64,SlBFRw=='',
                    mimeType = ''image/jpeg''\<rparr>)"
    by (simp add: b)
  have y: "inspect_slide env_ok ''slide.html'' ''tall'' = (Inr (Message invalid_aspect_ratio), [])"
    using inspect_slide_results[of env_ok "''slide.html''" "Exception []" "''tall''"
            "''/work/slide.html''" True] a(1) e(1) s(1) n
    by simp
  have "inspect_slide env_ok ''other.html'' ''widescreen''
       = (Inr (Message (''HTML path '' @ ''/work/other.html'' @ '' does not exist or is not an HTML file'')), [])"
    using inspect_slide_results[of env_ok "''other.html''" "Exception []" "''widescreen''"
            "''/work/other.html''" False] a(2) e(2)
    by simp
  then have z: "inspect_slide env_ok ''other.html'' ''widescreen''
       = (Inr (Message ''HTML path /work/other.html does not exist or is not an HTML file''), [])"
    by simp
  have u: "inspect_slide env_denied ''slide.html'' ''widescreen''
       = (Inl (Exception ''Permission denied''), [])"
    using inspect_slide_results[of env_denied "''slide.html''" "Exception ''Permission denied''"
            "''widescreen''" "''/work/slide.html''"] a(3) e(3)
    by simp
  note r = inspect_slide_results[of env_cancel "''slide.html''" "BaseException ''CancelledError''"
            "''widescreen''" "''/work/slide.html''" True]
  from r a(4) e(4) s(2) w c(2)
  have "fst (inspect_slide env_cancel ''slide.html'' ''widescreen'')
          = handler (BaseException ''CancelledError'')"
    by simp
  moreover from r nb have "handler (BaseException ''CancelledError'')
          = Inl (BaseException ''CancelledError'')"
    by simp
  ultimately have v: "fst (inspect_slide env_cancel ''slide.html'' ''widescreen'')
       = Inl (BaseException ''CancelledError'')"
    by simp
  from x y z u v show ?thesis by blast
qed

text \<open>
  Claim C1, as amended. A tool raises exactly what one of its unguarded calls raises.
  \<open>download_file\<close>: the exception of creating the parent directory, or, after a
  completed attempt on an image path, an object raised by the decoder that is not an
  \<open>Exception\<close> (whatever an attempt raises is swallowed, and an \<open>Exception\<close> of the decoder
  is returned as a string). \<open>markdown_table_to_image\<close>: the exception of the converter
  or of the rasterizer. \<open>inspect_slide\<close>: the exception of resolving the path or of
  testing that it exists, or an object raised inside the \<open>try\<close> that is not an
  \<open>Exception\<close> (an \<open>Exception\<close> raised there is returned). \<open>inspect_manuscript\<close>: the
  exception of the existence test of the file; for a valid file and page number the
  exception of reading the file; and for a page that exists the exception of the first
  existence test of an image path that raises. In every other case the tool returns a
  value. The claim as stated, that no tool ever raises, fails on the environment
  \<open>env_raise\<close>.
\<close>

theorem tools_raise_only_unguarded:
  "(fst (download_file env url output_path w) = Inl e
    \<longleftrightarrow> mkdir_parents env output_path = Some e
      \<or> (mkdir_parents env output_path = None
         \<and> list_ex (attempt_completes env url output_path) [0..<nat (RETRY_TIMES env)]
         \<and> endswith_any (lower output_path) image_extensions
         \<and> image_open env (snd (attempts env url output_path [0..<nat (RETRY_TIMES env)] w))
              output_path = Inl e
         \<and> \<not> is_exception e))
   \<and> (markdown_table_to_image env markdown_table path css = Inl e
    \<longleftrightarrow> markdown_to_html env markdown_table = Inl e
      \<or> (\<exists>html. markdown_to_html env markdown_table = Inr html
            \<and> get_html_table_image env html path css = Some e))
   \<and> (fst (inspect_slide env html_file aspect_ratio) = Inl e
    \<longleftrightarrow> path_absolute env html_file = Inl e
      \<or> (\<exists>html_path. path_absolute env html_file = Inr html_path
           \<and> (path_exists env html_path = Inl e
              \<or> (path_exists env html_path = Inr True \<and> path_suffix env html_path = ''.html''
                 \<and> aspect_ratio \<in> {''widescreen'', ''normal'', ''A1''} \<and> \<not> is_exception e
                 \<and> (convert_html_to_pptx env html_path aspect_ratio = Inl e
                    \<or> (\<exists>pptx_path. convert_html_to_pptx env html_path aspect_ratio = Inr pptx_path
                         \<and> (temporary_directory env = Inl e
                            \<or> (\<exists>tmp_dir. temporary_directory env = Inr tmp_dir
                                 \<and> ppt_to_images env pptx_path tmp_dir = Inl e))))))))
   \<and> (inspect_manuscript env md_file page_id = Inl e
    \<longleftrightarrow> path_exists env md_file = Inl e
      \<or> (path_exists env md_file = Inr True \<and> endswith (lower md_file) ''.md'' \<and> 1 \<le> page_id
         \<and> (read_text env md_file = Inl e
            \<or> (\<exists>markdown. read_text env md_file = Inr markdown
                \<and> page_id \<le> int (length (pages_of markdown))
                \<and> first_raise env (re_finditer image_pattern
                     (pages_of markdown ! nat (page_id - 1))) = Some e))))
   \<and> (first_raise env ms = Some e
    \<longleftrightarrow> (\<exists>i<length ms. path_exists env (ms ! i ! 1) = Inl e
          \<and> (\<forall>j<i. \<exists>found. path_exists env (ms ! j ! 1) = Inr found)))"
  by (intro conjI download_file_Inl_iff markdown_table_to_image_Inl_iff inspect_slide_Inl_iff
        inspect_manuscript_Inl_iff first_raise_iff)

theorem tools_raise_counterexample:
  "markdown_table_to_image env_raise ''| a | b |'' ''out/table.png'' []
     = Inl (Exception ''browser closed'')
   \<and> inspect_manuscript env_raise ''deck.md'' 1 = Inl (Exception ''Is a directory'')
   \<and> fst (download_file env_raise ''http://e.com/pic.gif'' ''img/pic.gif'' start)
       = Inl (Exception ''Permission denied'')"
proof -
  have x: "endswith (lower ''deck.md'') ''.md''" by code_simp
  have "markdown_table_to_image env_raise ''| a | b |'' ''out/table.png'' []
          = Inl (Exception ''browser closed'')"
    by (simp add: markdown_table_to_image_def env_raise_def env_ok_def)
  moreover have "inspect_manuscript env_raise ''deck.md'' 1 = Inl (Exception ''Is a directory'')"
    using x by (simp add: inspect_manuscript_def env_raise_def env_ok_def)
  moreover have "fst (download_file env_raise ''http://e.com/pic.gif'' ''img/pic.gif'' start)
       = Inl (Exception ''Permission denied'')"
    by (simp add: download_file_def env_raise_def env_ok_def)
  ultimately show ?thesis by simp
qed

theorem tools_raise_only_unguarded_witness:
  "fst (download_file env_raise ''http://e.com/pic.gif'' ''img/pic.gif'' start)
     = Inl (Exception ''Permission denied'')
   \<and> (\<exists>s. fst (download_file env_down ''http://e.com/pic.gif'' ''img/pic.gif'' start) = Inr s)
   \<and> markdown_table_to_image env_raise ''| a | b |'' ''out/table.png'' []
       = Inl (Exception ''browser closed'')
   \<and> inspect_manuscript env_raise ''deck.md'' 1 = Inl (Exception ''Is a directory'')
   \<and> inspect_manuscript env_long ''long.md'' 2 = Inl (Exception ''File name too long'')
   \<and> fst (inspect_slide env_cancel ''slide.html'' ''widescreen'')
       = Inl (BaseException ''CancelledError'')
   \<and> fst (inspect_slide env_denied ''slide.html'' ''widescreen'')
       = Inl (Exception ''Permission denied'')"
proof -
  let ?url = "''http://e.com/pic.gif''"
  let ?out = "''img/pic.gif''"
  have m: "mkdir_parents env_raise ?out = Some (Exception ''Permission denied'')"
    and d: "mkdir_parents env_down ?out = None"
    and h: "markdown_to_html env_raise ''| a | b |'' = Inr ''<table>| a | b |</table>''"
    and g: "get_html_table_image env_raise ''<table>| a | b |</table>'' ''out/table.png'' []
              = Some (Exception ''browser closed'')"
    and r: "read_text env_raise ''deck.md'' = Inl (Exception ''Is a directory'')"
    and e: "path_exists env_raise ''deck.md'' = Inr True"
    and rl: "read_text env_long ''long.md'' = Inr long_md"
    and el: "path_exists env_long ''long.md'' = Inr True"
    and a: "path_absolute env_cancel ''slide.html'' = Inr ''/work/slide.html''"
      "path_absolute env_denied ''slide.html'' = Inr ''/work/slide.html''"
    and s: "path_exists env_cancel ''/work/slide.html'' = Inr True"
      "path_exists env_denied ''/work/slide.html'' = Inl (Exception ''Permission denied'')"
    and c: "convert_html_to_pptx env_cancel ''/work/slide.html'' ''widescreen''
              = Inl (BaseException ''CancelledError'')"
    by (simp_all add: env_raise_def env_down_def env_long_def env_cancel_def env_denied_def env_ok_def)
  have sf: "path_suffix env_cancel ''/work/slide.html'' = ''.html''"
    by (simp add: env_cancel_def env_ok_def endswith_def suffix_to_prefix)
  have x: "endswith (lower ''deck.md'') ''.md''" "endswith (lower ''long.md'') ''.md''"
    by code_simp+
  have none: "\<not> list_ex (attempt_completes env_down ?url ?out) [0..<nat (RETRY_TIMES env_down)]"
    by code_simp
  have pl: "int (length (pages_of long_md)) = 2" by code_simp
  have fr: "first_raise env_long (re_finditer image_pattern (pages_of long_md ! nat (2 - 1)))
              = Some (Exception ''File name too long'')"
    by code_simp
  have 1: "fst (download_file env_raise ?url ?out start) = Inl (Exception ''Permission denied'')"
    using tools_raise_only_unguarded[where env = env_raise and url = ?url and output_path = ?out
            and w = start and e = "Exception ''Permission denied''", THEN conjunct1] m
    by simp
  have "\<forall>e. fst (download_file env_down ?url ?out start) \<noteq> Inl e"
  proof
    fix e
    show "fst (download_file env_down ?url ?out start) \<noteq> Inl e"
      using tools_raise_only_unguarded[where env = env_down and url = ?url and output_path = ?out
              and w = start and e = e, THEN conjunct1] d none
      by simp
  qed
  then have 2: "\<exists>s. fst (download_file env_down ?url ?out start) = Inr s"
    by (cases "fst (download_file env_down ?url ?out start)") auto
  have 3: "markdown_table_to_image env_raise ''| a | b |'' ''out/table.png'' []
             = Inl (Exception ''browser closed'')"
    using tools_raise_only_unguarded[where env = env_raise and markdown_table = "''| a | b |''"
            and path = "''out/table.png''" and css = "[]" and e = "Exception ''browser closed''",
            THEN conjunct2, THEN conjunct1] h g
    by simp
  have 4: "inspect_manuscript env_raise ''deck.md'' 1 = Inl (Exception ''Is a directory'')"
    using tools_raise_only_unguarded[where env = env_raise and md_file = "''deck.md''"
            and page_id = 1 and e = "Exception ''Is a directory''",
            THEN conjunct2, THEN conjunct2, THEN conjunct2, THEN conjunct1] r e x(1)
    by simp
  have 5: "inspect_manuscript env_long ''long.md'' 2 = Inl (Exception ''File name too long'')"
    using tools_raise_only_unguarded[where env = env_long and md_file = "''long.md''"
            and page_id = 2 and e = "Exception ''File name too long''",
            THEN conjunct2, THEN conjunct2, THEN conjunct2, THEN conjunct1] rl el x(2) pl fr
    by simp
  have 6: "fst (inspect_slide env_cancel ''slide.html'' ''widescreen'')
             = Inl (BaseException ''CancelledError'')"
    using tools_raise_only_unguarded[where env = env_cancel and html_file = "''slide.html''"
            and aspect_ratio = "''widescreen''" and e = "BaseException ''CancelledError''",
            THEN conjunct2, THEN conjunct2, THEN conjunct1] a(1) s(1) sf c
    by simp
  have 7: "fst (inspect_slide env_denied ''slide.html'' ''widescreen'')
             = Inl (Exception ''Permission denied'')"
    using tools_raise_only_unguarded[where env = env_denied and html_file = "''slide.html''"
            and aspect_ratio = "''widescreen''" and e = "Exception ''Permission denied''",
            THEN conjunct2, THEN conjunct2, THEN conjunct1] a(2) s(2)
    by simp
  from 1 2 3 4 5 6 7 show ?thesis by simp
qed




end
